theory Spec2Isabelle
  imports Complex_Main "HOL-Library.AList"
begin

text \<open>
  The model lifecycle managers of the LMDeploy and the vLLM server, and the parts of the
  Ollama-compatible gateway that build prompts and relay generations, as functions on
  explicit states: the manager's dictionaries are passed in and returned, the backend
  library is a parameter, a call that raises returns the exception as a value, and the
  coroutine \<open>load_model\<close> is cut at its suspension points so that concurrent calls can
  be interleaved.
\<close>

section \<open>Python values and helpers\<close>

text \<open>
  Strings are lists of characters; the line feed is the character with code 10.
  \<open>str_join\<close> is Python's \<open>sep.join(parts)\<close>.
\<close>

definition nl :: string where
  "nl = [CHR 0x0A]"

fun str_join :: "string \<Rightarrow> string list \<Rightarrow> string" where
  "str_join sep [] = []"
| "str_join sep [x] = x"
| "str_join sep (x # y # ys) = x @ sep @ str_join sep (y # ys)"

text \<open>
  The values that travel through keyword arguments and configuration dictionaries.
  A float literal such as \<open>0.8\<close> is kept as the rational it denotes: the code only
  passes these values on and never computes with them.
\<close>

datatype pyval = PInt int | PFloat rat | PStr string | PList "pyval list"

text \<open>
  A \<open>dict\<close> is an association list in insertion order: \<open>map_of\<close> is the lookup,
  \<open>AList.update\<close> is \<open>d[k] = v\<close> (in place for a known key, at the end for a new one),
  \<open>AList.delete\<close> is \<open>del d[k]\<close> once the key is known to be there, and
  \<open>dict_get\<close> is \<open>d.get(k, default)\<close>.
\<close>

type_synonym 'v pydict = "(string \<times> 'v) list"

definition dict_get :: "'v pydict \<Rightarrow> string \<Rightarrow> 'v \<Rightarrow> 'v" where
  "dict_get d k dflt = (case map_of d k of Some v \<Rightarrow> v | None \<Rightarrow> dflt)"

datatype py_error = KeyError string | TypeError string

section \<open>config.py: server settings and the model registry\<close>

record LMDeployServerConfig =
  host :: string
  port :: int
  default_model :: string
  max_model_len :: int
  max_num_seqs :: int
  tensor_parallel_size :: int
  gpu_memory_utilization :: rat
  api_timeout :: int
  enable_streaming :: bool
  enable_batching :: bool
  batch_size :: int

text \<open>The settings object when no environment variable overrides a field.\<close>

definition field_defaults :: LMDeployServerConfig where
  "field_defaults =
     \<lparr>host = ''127.0.0.1'', port = 11435,
      default_model = ''TheBloke/deepseek-coder-1.3b-instruct-AWQ'',
      max_model_len = 2048, max_num_seqs = 256, tensor_parallel_size = 1,
      gpu_memory_utilization = 9 / 10, api_timeout = 300, enable_streaming = True,
      enable_batching = True, batch_size = 8\<rparr>"

definition SUPPORTED_MODELS :: "pyval pydict pydict" where
  "SUPPORTED_MODELS =
     [(''microsoft/DialoGPT-medium'',
        [(''max_model_len'', PInt 1024), (''tensor_parallel_size'', PInt 1),
         (''use_case'', PStr ''chat''),
         (''description'', PStr ''Microsoft DialoGPT medium model for conversation'')]),
      (''TheBloke/deepseek-coder-1.3b-instruct-AWQ'',
        [(''max_model_len'', PInt 2048), (''tensor_parallel_size'', PInt 1),
         (''use_case'', PStr ''code''),
         (''description'', PStr ''DeepSeek Coder 1.3B model for code generation'')]),
      (''meta-llama/Llama-2-7b-chat-hf'',
        [(''max_model_len'', PInt 4096), (''tensor_parallel_size'', PInt 1),
         (''use_case'', PStr ''chat''),
         (''description'', PStr ''Llama 2 7B chat model'')]),
      (''mistralai/Mistral-7B-Instruct-v0.1'',
        [(''max_model_len'', PInt 8192), (''tensor_parallel_size'', PInt 1),
         (''use_case'', PStr ''instruction''),
         (''description'', PStr ''Mistral 7B instruction-following model'')]),
      (''codellama/CodeLlama-7b-Python-hf'',
        [(''max_model_len'', PInt 4096), (''tensor_parallel_size'', PInt 1),
         (''use_case'', PStr ''code''),
         (''description'', PStr ''Code Llama 7B Python specialist'')])]"

definition get_model_config :: "string \<Rightarrow> pyval pydict" where
  "get_model_config model_name =
     dict_get SUPPORTED_MODELS model_name
       [(''max_model_len'', PInt 2048), (''tensor_parallel_size'', PInt 1),
        (''use_case'', PStr ''general''),
        (''description'', PStr (''Custom model: '' @ model_name))]"

definition list_supported_models :: "string list" where
  "list_supported_models = map fst SUPPORTED_MODELS"

section \<open>model_manager.py (LMDeploy): the backend as the manager sees it\<close>

text \<open>
  The arguments \<open>load_model\<close> hands to \<open>TurbomindEngineConfig\<close>, resolved from the
  keyword arguments of the call, the registry entry and the settings object.
\<close>

record TurbomindEngineConfig =
  session_len :: pyval
  max_batch_size :: pyval
  tp :: pyval
  cache_max_entry_count :: pyval

definition engine_config :: "LMDeployServerConfig \<Rightarrow> pyval pydict \<Rightarrow> pyval pydict \<Rightarrow> TurbomindEngineConfig" where
  "engine_config config model_config kwargs =
     \<lparr>session_len =
        dict_get kwargs ''max_model_len''
          (dict_get model_config ''max_model_len'' (PInt (max_model_len config))),
      max_batch_size = dict_get kwargs ''max_num_seqs'' (PInt (max_num_seqs config)),
      tp =
        dict_get kwargs ''tensor_parallel_size''
          (dict_get model_config ''tensor_parallel_size'' (PInt (tensor_parallel_size config))),
      cache_max_entry_count = dict_get kwargs ''cache_max_entry_count'' (PFloat (8 / 10))\<rparr>"

text \<open>
  What the LMDeploy library does is outside the repository, so it is a parameter: whether
  the import succeeded, what a call of \<open>pipeline\<close> does (it may depend on how many
  constructions were started before, so that a construction can fail once and succeed
  later), what \<open>close\<close> does on a handle, and what a handle generates. The import either
  binds \<open>pipeline\<close>, \<open>GenerationConfig\<close> and \<open>TurbomindEngineConfig\<close> together and sets
  the flag, or sets all three to \<open>None\<close> and clears it; the guards \<open>x is None\<close> on these
  names are therefore the negation of the flag.
\<close>

datatype 'h ctor_outcome = Built 'h | ReturnsNone | Raises string

datatype close_outcome = NoCloseAttr | CloseReturns | CloseRaises string

text \<open>One element of a generation result: an object with \<open>.text\<close>, a string, or anything
  else (with what \<open>str\<close> makes of it).\<close>

datatype gen_result = HasText string | IsStr string | Other string

fun result_text :: "gen_result \<Rightarrow> string" where
  "result_text (HasText t) = t"
| "result_text (IsStr t) = t"
| "result_text (Other t) = t"

datatype infer_outcome = InferResults "gen_result list" | InferRaises string

text \<open>A synchronous iterator: the items it produces, then either its normal end or the
  exception it raises.\<close>

datatype 'a iterator = Iterator "'a list" "string option"

record 'h backend =
  LMDEPLOY_AVAILABLE :: bool
  pipeline :: "nat \<Rightarrow> string \<Rightarrow> TurbomindEngineConfig \<Rightarrow> 'h ctor_outcome"
  close :: "'h \<Rightarrow> close_outcome"
  infer :: "'h \<Rightarrow> string \<Rightarrow> pyval pydict \<Rightarrow> infer_outcome"
  stream_infer :: "'h \<Rightarrow> string \<Rightarrow> pyval pydict \<Rightarrow> gen_result list iterator"

section \<open>model_manager.py (LMDeploy): the manager's state\<close>

text \<open>
  The four dictionaries of \<open>ModelManager.__init__\<close>. A lock object is its \<open>locked\<close>
  flag. \<open>constructions\<close> is not in the source: it records every construction of a
  backend the manager has started (the identifier and the engine arguments), so that
  statements about how often the backend is constructed can be made. Timestamps (\<open>time.time()\<close>) are rationals, and every function takes the
  clock reading it would obtain as the argument \<open>now\<close>.
\<close>

record ('h, 'c) ModelManager =
  models :: "'h pydict"
  model_configs :: "pyval pydict pydict"
  last_used :: "rat pydict"
  loading_locks :: "bool pydict"
  constructions :: "(string \<times> 'c) list"

type_synonym 'h LMDeployManager = "('h, TurbomindEngineConfig) ModelManager"

definition init_manager :: "('h, 'c) ModelManager" where
  "init_manager =
     \<lparr>models = [], model_configs = [], last_used = [], loading_locks = [], constructions = []\<rparr>"

definition lock_held :: "('h, 'c) ModelManager \<Rightarrow> string \<Rightarrow> bool" where
  "lock_held s model_name = (map_of (loading_locks s) model_name = Some True)"

definition acquire :: "string \<Rightarrow> ('h, 'c) ModelManager \<Rightarrow> ('h, 'c) ModelManager" where
  "acquire model_name s = s\<lparr>loading_locks := AList.update model_name True (loading_locks s)\<rparr>"

definition release :: "string \<Rightarrow> ('h, 'c) ModelManager \<Rightarrow> ('h, 'c) ModelManager" where
  "release model_name s = s\<lparr>loading_locks := AList.update model_name False (loading_locks s)\<rparr>"

section \<open>model_manager.py (LMDeploy): load_model\<close>

text \<open>
  \<open>load_model\<close> is a coroutine with two points where it can be suspended: entering
  \<open>async with\<close> on a lock that is held, and awaiting the executor that runs \<open>pipeline\<close>.
  The code between these points runs without interruption, so the coroutine is three
  segments. \<open>load_next\<close> says what the coroutine does after a segment.
\<close>

datatype 'h load_next =
    Returns "'h option"
  | AcquireLock
  | RunPipeline "pyval pydict" TurbomindEngineConfig

text \<open>From the call to the \<open>async with\<close>: the availability guard, the cached path, the
  creation of the lock.\<close>

definition load_enter :: "'h backend \<Rightarrow> rat \<Rightarrow> string \<Rightarrow> 'h LMDeployManager \<Rightarrow> 'h load_next \<times> 'h LMDeployManager" where
  "load_enter b now model_name s =
     (if \<not> LMDEPLOY_AVAILABLE b then (Returns None, s)
      else case map_of (models s) model_name of
        Some pipe \<Rightarrow>
          (Returns (Some pipe), s\<lparr>last_used := AList.update model_name now (last_used s)\<rparr>)
      | None \<Rightarrow>
          (AcquireLock,
           if map_of (loading_locks s) model_name = None
           then s\<lparr>loading_locks := AList.update model_name False (loading_locks s)\<rparr>
           else s))"

text \<open>From the acquisition of the lock to the executor: the second look at the cache, the
  registry lookup and the engine configuration. Leaving the \<open>async with\<close> block by
  \<open>return\<close> releases the lock.\<close>

definition load_locked :: "'h backend \<Rightarrow> LMDeployServerConfig \<Rightarrow> rat \<Rightarrow> string \<Rightarrow> pyval pydict \<Rightarrow> 'h LMDeployManager \<Rightarrow> 'h load_next \<times> 'h LMDeployManager" where
  "load_locked b config now model_name kwargs s0 =
     (let s = acquire model_name s0 in
      case map_of (models s) model_name of
        Some pipe \<Rightarrow>
          (Returns (Some pipe),
           release model_name (s\<lparr>last_used := AList.update model_name now (last_used s)\<rparr>))
      | None \<Rightarrow>
          (let model_config = get_model_config model_name in
           if LMDEPLOY_AVAILABLE b then
             (let ec = engine_config config model_config kwargs in
              (RunPipeline model_config ec,
               s\<lparr>constructions := constructions s @ [(model_name, ec)]\<rparr>))
           else (Returns None, release model_name s)))"

text \<open>From the executor's answer to the return: a raised exception and a \<open>None\<close> both
  return \<open>None\<close>; a pipeline is stored in the three dictionaries.\<close>

definition load_built :: "'h ctor_outcome \<Rightarrow> rat \<Rightarrow> string \<Rightarrow> pyval pydict \<Rightarrow> 'h LMDeployManager \<Rightarrow> 'h option \<times> 'h LMDeployManager" where
  "load_built outcome now model_name model_config s =
     (case outcome of
        Raises e \<Rightarrow> (None, release model_name s)
      | ReturnsNone \<Rightarrow> (None, release model_name s)
      | Built pipe \<Rightarrow>
          (Some pipe,
           release model_name
             (s\<lparr>models := AList.update model_name pipe (models s),
                model_configs := AList.update model_name model_config (model_configs s),
                last_used := AList.update model_name now (last_used s)\<rparr>)))"

text \<open>
  A call that runs with no other coroutine in between. The result \<open>None\<close> of the model
  means that the call does not return: it waits for a lock that nobody will release.
\<close>

definition load_model :: "'h backend \<Rightarrow> LMDeployServerConfig \<Rightarrow> rat \<Rightarrow> string \<Rightarrow> pyval pydict \<Rightarrow> 'h LMDeployManager \<Rightarrow> ('h option \<times> 'h LMDeployManager) option" where
  "load_model b config now model_name kwargs s =
     (case load_enter b now model_name s of
        (Returns r, s1) \<Rightarrow> Some (r, s1)
      | (RunPipeline mc ec, s1) \<Rightarrow> None
      | (AcquireLock, s1) \<Rightarrow>
          if lock_held s1 model_name then None
          else (case load_locked b config now model_name kwargs s1 of
                  (Returns r, s2) \<Rightarrow> Some (r, s2)
                | (AcquireLock, s2) \<Rightarrow> None
                | (RunPipeline mc ec, s2) \<Rightarrow>
                    Some (load_built (pipeline b (length (constructions s1)) model_name ec)
                            now model_name mc s2)))"

section \<open>model_manager.py (LMDeploy): unload_model and cleanup_unused_models\<close>

text \<open>The \<open>try\<close> block around \<open>close\<close>: the value is the exception that leaves the block.
  \<open>except Exception\<close> logs a warning and goes on, so none does.\<close>

definition try_close :: "'h backend \<Rightarrow> 'h \<Rightarrow> py_error option" where
  "try_close b pipe =
     (case close b pipe of
        NoCloseAttr \<Rightarrow> None
      | CloseReturns \<Rightarrow> None
      | CloseRaises e \<Rightarrow> None)"

text \<open>\<open>del d[k]\<close> raises \<open>KeyError\<close> for a missing key; the deletions made before it
  stay.\<close>

definition unload_model :: "'h backend \<Rightarrow> string \<Rightarrow> ('h, 'c) ModelManager \<Rightarrow> (py_error + bool) \<times> ('h, 'c) ModelManager" where
  "unload_model b model_name s =
     (case map_of (models s) model_name of
        None \<Rightarrow> (Inr False, s)
      | Some pipe \<Rightarrow>
          (case try_close b pipe of
             Some e \<Rightarrow> (Inl e, s)
           | None \<Rightarrow>
               (let s1 = s\<lparr>models := AList.delete model_name (models s)\<rparr> in
                if map_of (model_configs s1) model_name = None
                then (Inl (KeyError model_name), s1)
                else
                  (let s2 = s1\<lparr>model_configs := AList.delete model_name (model_configs s1)\<rparr> in
                   if map_of (last_used s2) model_name = None
                   then (Inl (KeyError model_name), s2)
                   else (Inr True,
                         s2\<lparr>last_used := AList.delete model_name (last_used s2)\<rparr>)))))"

definition to_unload :: "rat \<Rightarrow> rat \<Rightarrow> rat pydict \<Rightarrow> string list" where
  "to_unload current_time max_idle_time lu =
     map fst (filter (\<lambda>(model_name, t). current_time - t > max_idle_time) lu)"

fun unload_each :: "'h backend \<Rightarrow> string list \<Rightarrow> ('h, 'c) ModelManager \<Rightarrow> py_error option \<times> ('h, 'c) ModelManager" where
  "unload_each b [] s = (None, s)"
| "unload_each b (model_name # rest) s =
     (case unload_model b model_name s of
        (Inl e, s') \<Rightarrow> (Some e, s')
      | (Inr r, s') \<Rightarrow> unload_each b rest s')"

definition cleanup_unused_models :: "'h backend \<Rightarrow> rat \<Rightarrow> rat \<Rightarrow> ('h, 'c) ModelManager \<Rightarrow> py_error option \<times> ('h, 'c) ModelManager" where
  "cleanup_unused_models b current_time max_idle_time s =
     unload_each b (to_unload current_time max_idle_time (last_used s)) s"

section \<open>model_manager.py (LMDeploy): status\<close>

definition list_loaded_models :: "'h LMDeployManager \<Rightarrow> string list" where
  "list_loaded_models s = map fst (models s)"

record system_status =
  lmdeploy_available :: bool
  loaded_models :: int
  model_list :: "string list"
  supported_models :: "string list"

definition get_system_status :: "'h backend \<Rightarrow> 'h LMDeployManager \<Rightarrow> system_status" where
  "get_system_status b s =
     \<lparr>lmdeploy_available = LMDEPLOY_AVAILABLE b,
      loaded_models = int (length (models s)),
      model_list = list_loaded_models s,
      supported_models = list_supported_models\<rparr>"

section \<open>model_manager.py (LMDeploy): concurrent calls of load_model\<close>

text \<open>
  Coroutines on one event loop run one at a time and change hands only where one is
  suspended. A call of \<open>load_model\<close> is therefore in one of four places: called and not
  yet started, suspended at the \<open>async with\<close> of a held lock, suspended at the executor
  (holding the lock; the number is the index of its \<open>pipeline\<close> call), or finished with
  its result. \<open>resume\<close> runs one coroutine to its next suspension. A schedule is the list
  of the event loop's choices: which call runs next and what the clock reads then.
  Choosing a call that cannot move leaves everything as it is. The schedules of the
  model include every order in which the event loop can wake the calls.
\<close>

datatype 'h task =
    Called string "pyval pydict"
  | Waiting string "pyval pydict"
  | InExecutor string "pyval pydict" TurbomindEngineConfig nat
  | Finished "'h option"

definition enter_lock :: "'h backend \<Rightarrow> LMDeployServerConfig \<Rightarrow> rat \<Rightarrow> string \<Rightarrow> pyval pydict \<Rightarrow> 'h LMDeployManager \<Rightarrow> 'h task \<times> 'h LMDeployManager" where
  "enter_lock b config now model_name kwargs s =
     (if lock_held s model_name then (Waiting model_name kwargs, s)
      else case load_locked b config now model_name kwargs s of
        (Returns r, s') \<Rightarrow> (Finished r, s')
      | (AcquireLock, s') \<Rightarrow> (Waiting model_name kwargs, s')
      | (RunPipeline mc ec, s') \<Rightarrow>
          (InExecutor model_name mc ec (length (constructions s)), s'))"

fun resume :: "'h backend \<Rightarrow> LMDeployServerConfig \<Rightarrow> rat \<Rightarrow> 'h task \<Rightarrow> 'h LMDeployManager \<Rightarrow> 'h task \<times> 'h LMDeployManager" where
  "resume b config now (Called model_name kwargs) s =
     (case load_enter b now model_name s of
        (Returns r, s1) \<Rightarrow> (Finished r, s1)
      | (AcquireLock, s1) \<Rightarrow> enter_lock b config now model_name kwargs s1
      | (RunPipeline mc ec, s1) \<Rightarrow> (Called model_name kwargs, s1))"
| "resume b config now (Waiting model_name kwargs) s =
     enter_lock b config now model_name kwargs s"
| "resume b config now (InExecutor model_name mc ec k) s =
     (case load_built (pipeline b k model_name ec) now model_name mc s of
        (r, s') \<Rightarrow> (Finished r, s'))"
| "resume b config now (Finished r) s = (Finished r, s)"

record 'h event_loop =
  manager :: "'h LMDeployManager"
  tasks :: "'h task list"

definition run_task :: "'h backend \<Rightarrow> LMDeployServerConfig \<Rightarrow> nat \<times> rat \<Rightarrow> 'h event_loop \<Rightarrow> 'h event_loop" where
  "run_task b config choice l =
     (case choice of (i, now) \<Rightarrow>
        if i < length (tasks l)
        then (case resume b config now (tasks l ! i) (manager l) of
                (t, s) \<Rightarrow> \<lparr>manager = s, tasks = (tasks l)[i := t]\<rparr>)
        else l)"

definition run_schedule :: "'h backend \<Rightarrow> LMDeployServerConfig \<Rightarrow> (nat \<times> rat) list \<Rightarrow> 'h event_loop \<Rightarrow> 'h event_loop" where
  "run_schedule b config schedule l = fold (run_task b config) schedule l"


section \<open>model_manager.py (vLLM)\<close>

text \<open>
  The vLLM manager has the same four dictionaries. Its \<open>config.py\<close> is not among the
  sources: the settings object (of which \<open>load_model\<close> reads four fields, named as in
  the LMDeploy settings) and the registry lookup \<open>ModelConfig.get_model_config\<close> are
  parameters. \<open>AsyncEngineArgs\<close> is called with five named arguments and with
  \<open>**kwargs\<close> on top; Python rejects a call in which a keyword is given twice with a
  \<open>TypeError\<close>, before the callee runs.
\<close>

definition named_arguments :: "string list" where
  "named_arguments =
     [''model'', ''max_model_len'', ''max_num_seqs'', ''tensor_parallel_size'',
      ''gpu_memory_utilization'']"

definition vllm_engine_args :: "LMDeployServerConfig \<Rightarrow> pyval pydict \<Rightarrow> string \<Rightarrow> pyval pydict \<Rightarrow> py_error + pyval pydict" where
  "vllm_engine_args config model_config model_name kwargs =
     (let named =
        [(''model'', PStr model_name),
         (''max_model_len'',
            dict_get kwargs ''max_model_len''
              (dict_get model_config ''max_model_len'' (PInt (max_model_len config)))),
         (''max_num_seqs'', dict_get kwargs ''max_num_seqs'' (PInt (max_num_seqs config))),
         (''tensor_parallel_size'',
            dict_get kwargs ''tensor_parallel_size''
              (dict_get model_config ''tensor_parallel_size''
                 (PInt (tensor_parallel_size config)))),
         (''gpu_memory_utilization'',
            dict_get kwargs ''gpu_memory_utilization''
              (PFloat (gpu_memory_utilization config)))]
      in case filter (\<lambda>k. k \<in> set named_arguments) (map fst kwargs) of
           [] \<Rightarrow> Inr (named @ kwargs)
         | k # ks \<Rightarrow> Inl (TypeError k))"

datatype 'h engine_outcome = EngineBuilt 'h | EngineRaises string

record 'h vllm_backend =
  VLLM_AVAILABLE :: bool
  from_engine_args :: "nat \<Rightarrow> pyval pydict \<Rightarrow> 'h engine_outcome"

type_synonym 'h VLLMManager = "('h, pyval pydict) ModelManager"

text \<open>
  \<open>load_model\<close> of the vLLM manager awaits nothing but the lock, and
  \<open>from_engine_args\<close> is an ordinary call, so a call that gets the lock runs to its
  end in one piece. As before, \<open>None\<close> means that the call waits for a lock forever.
\<close>

definition vllm_load_model :: "'h vllm_backend \<Rightarrow> LMDeployServerConfig \<Rightarrow> (string \<Rightarrow> pyval pydict) \<Rightarrow> rat \<Rightarrow> string \<Rightarrow> pyval pydict \<Rightarrow> 'h VLLMManager \<Rightarrow> ('h option \<times> 'h VLLMManager) option" where
  "vllm_load_model b config registry now model_name kwargs s =
     (if \<not> VLLM_AVAILABLE b then Some (None, s)
      else case map_of (models s) model_name of
        Some engine \<Rightarrow>
          Some (Some engine, s\<lparr>last_used := AList.update model_name now (last_used s)\<rparr>)
      | None \<Rightarrow>
          (let s1 = (if map_of (loading_locks s) model_name = None
                     then s\<lparr>loading_locks := AList.update model_name False (loading_locks s)\<rparr>
                     else s)
           in if lock_held s1 model_name then None
              else
                (let s2 = acquire model_name s1 in
                 case map_of (models s2) model_name of
                   Some engine \<Rightarrow>
                     Some (Some engine,
                           release model_name
                             (s2\<lparr>last_used := AList.update model_name now (last_used s2)\<rparr>))
                 | None \<Rightarrow>
                     (let model_config = registry model_name in
                      case vllm_engine_args config model_config model_name kwargs of
                        Inl e \<Rightarrow> Some (None, release model_name s2)
                      | Inr engine_args \<Rightarrow>
                          (let s3 = s2\<lparr>constructions :=
                                         constructions s2 @ [(model_name, engine_args)]\<rparr>
                           in case from_engine_args b (length (constructions s2)) engine_args of
                                EngineRaises e \<Rightarrow> Some (None, release model_name s3)
                              | EngineBuilt engine \<Rightarrow>
                                  Some (Some engine,
                                        release model_name
                                          (s3\<lparr>models := AList.update model_name engine (models s3),
                                              model_configs :=
                                                AList.update model_name model_config
                                                  (model_configs s3),
                                              last_used :=
                                                AList.update model_name now (last_used s3)\<rparr>)))))))"

definition vllm_unload_model :: "string \<Rightarrow> ('h, 'c) ModelManager \<Rightarrow> (py_error + bool) \<times> ('h, 'c) ModelManager" where
  "vllm_unload_model model_name s =
     (case map_of (models s) model_name of
        None \<Rightarrow> (Inr False, s)
      | Some engine \<Rightarrow>
          (let s1 = s\<lparr>models := AList.delete model_name (models s)\<rparr> in
           if map_of (model_configs s1) model_name = None
           then (Inl (KeyError model_name), s1)
           else
             (let s2 = s1\<lparr>model_configs := AList.delete model_name (model_configs s1)\<rparr> in
              if map_of (last_used s2) model_name = None
              then (Inl (KeyError model_name), s2)
              else (Inr True, s2\<lparr>last_used := AList.delete model_name (last_used s2)\<rparr>))))"

fun vllm_unload_each :: "string list \<Rightarrow> ('h, 'c) ModelManager \<Rightarrow> py_error option \<times> ('h, 'c) ModelManager" where
  "vllm_unload_each [] s = (None, s)"
| "vllm_unload_each (model_name # rest) s =
     (case vllm_unload_model model_name s of
        (Inl e, s') \<Rightarrow> (Some e, s')
      | (Inr r, s') \<Rightarrow> vllm_unload_each rest s')"

definition vllm_cleanup_unused_models :: "rat \<Rightarrow> rat \<Rightarrow> ('h, 'c) ModelManager \<Rightarrow> py_error option \<times> ('h, 'c) ModelManager" where
  "vllm_cleanup_unused_models current_time max_idle_time s =
     vllm_unload_each (to_unload current_time max_idle_time (last_used s)) s"


section \<open>Notions used in the statements\<close>

text \<open>The three dictionaries of loaded models have the same keys.\<close>

definition keys_agree :: "('h, 'c) ModelManager \<Rightarrow> bool" where
  "keys_agree s =
     (fst ` set (model_configs s) = fst ` set (models s)
      \<and> fst ` set (last_used s) = fst ` set (models s))"

text \<open>An identifier is idle for longer than \<open>d\<close> at time \<open>now\<close>: its entry in the
  last-used dictionary is more than \<open>d\<close> before \<open>now\<close>.\<close>

definition expired :: "rat \<Rightarrow> rat \<Rightarrow> rat pydict \<Rightarrow> string \<Rightarrow> bool" where
  "expired now d lu model_name = list_ex (\<lambda>(k, t). k = model_name \<and> now - t > d) lu"

definition keep_fresh :: "rat \<Rightarrow> rat \<Rightarrow> rat pydict \<Rightarrow> 'v pydict \<Rightarrow> 'v pydict" where
  "keep_fresh now d lu entries = filter (\<lambda>(k, v). \<not> expired now d lu k) entries"

text \<open>A dictionary without the entries of a set of keys.\<close>

definition without :: "string set \<Rightarrow> 'v pydict \<Rightarrow> 'v pydict" where
  "without K d = filter (\<lambda>(k, v). k \<notin> K) d"









text \<open>The specification's rule for one configuration field: the override of the call if
  there is one, else the registry's value if there is one, else the global default.\<close>

definition spec_effective :: "pyval option \<Rightarrow> pyval option \<Rightarrow> pyval \<Rightarrow> pyval" where
  "spec_effective override registry global_default =
     (case override of
        Some v \<Rightarrow> v
      | None \<Rightarrow> (case registry of Some v \<Rightarrow> v | None \<Rightarrow> global_default))"

section \<open>server.py: chat messages and the flattened prompt\<close>

record ChatMessage =
  role :: string
  content :: string

text \<open>
  \<open>format_prompt_from_messages\<close>: the loop appends one part per message whose role is
  one of the three known ones and skips every other message; the parts are joined by
  line feeds and the assistant cue is appended.
\<close>

fun prompt_parts :: "ChatMessage list \<Rightarrow> string list" where
  "prompt_parts [] = []"
| "prompt_parts (message # messages) =
     (if role message = ''system'' then [''System: '' @ content message]
      else if role message = ''user'' then [''User: '' @ content message]
      else if role message = ''assistant'' then [''Assistant: '' @ content message]
      else []) @ prompt_parts messages"

definition format_prompt_from_messages :: "ChatMessage list \<Rightarrow> string" where
  "format_prompt_from_messages messages =
     str_join nl (prompt_parts messages) @ nl @ ''Assistant: ''"

text \<open>
  The specification's wording of one rendered line, \<open>Role: content\<close>: the role name
  with its first letter in upper case, a colon, a space, the content.
\<close>

definition upper_char :: "char \<Rightarrow> char" where
  "upper_char c =
     (if (97::nat) \<le> of_char c \<and> of_char c \<le> (122::nat)
      then char_of (of_char c - (32::nat)) else c)"

fun capitalize :: "string \<Rightarrow> string" where
  "capitalize [] = []"
| "capitalize (c # cs) = upper_char c # cs"

definition spec_line :: "ChatMessage \<Rightarrow> string" where
  "spec_line m = capitalize (role m) @ '': '' @ content m"

definition known_role :: "string \<Rightarrow> bool" where
  "known_role r = (r = ''system'' \<or> r = ''user'' \<or> r = ''assistant'')"

section \<open>model_manager.py (LMDeploy): generation\<close>

text \<open>
  A generation configuration is the dictionary of the keyword arguments given to
  \<open>GenerationConfig\<close>. The test \<open>if not pipe\<close> on the loaded handle is taken as the test
  for \<open>None\<close>: a pipeline object is not falsy.
\<close>

definition default_generation_config :: "pyval pydict" where
  "default_generation_config =
     [(''temperature'', PFloat (7 / 10)), (''top_p'', PFloat (9 / 10)),
      (''max_new_tokens'', PInt 512)]"

definition generate_text :: "'h backend \<Rightarrow> LMDeployServerConfig \<Rightarrow> rat \<Rightarrow> string \<Rightarrow> string \<Rightarrow> pyval pydict option \<Rightarrow> pyval pydict \<Rightarrow> 'h LMDeployManager \<Rightarrow> (string option \<times> 'h LMDeployManager) option" where
  "generate_text b config now model_name prompt generation_config kwargs s =
     (if \<not> LMDEPLOY_AVAILABLE b then Some (None, s)
      else case load_model b config now model_name kwargs s of
        None \<Rightarrow> None
      | Some (None, s1) \<Rightarrow> Some (None, s1)
      | Some (Some pipe, s1) \<Rightarrow>
          (let gc = (case generation_config of
                       None \<Rightarrow> default_generation_config
                     | Some g \<Rightarrow> g)
           in case infer b pipe prompt gc of
                InferRaises e \<Rightarrow> Some (None, s1)
              | InferResults [] \<Rightarrow> Some (None, s1)
              | InferResults (result # rest) \<Rightarrow> Some (Some (result_text result), s1)))"

text \<open>
  The streaming bridge. \<open>sync_stream\<close> turns the outputs of \<open>stream_infer\<close> into text
  chunks inside a \<open>try\<close> block whose handler logs the exception and returns, so the
  generator it defines always ends normally. \<open>run_stream\<close> is the producer thread: it
  puts every chunk on the queue, then \<open>done\<close>, or \<open>error\<close> if iterating raised.
  \<open>stream_loop\<close> is the consumer: it yields chunks until it takes \<open>done\<close> or \<open>error\<close>
  from the queue, and on both it leaves the loop. A consumer that finds the queue empty
  with no producer left waits forever (\<open>Blocked\<close>).
\<close>

fun output_text :: "gen_result list \<Rightarrow> string list" where
  "output_text [] = []"
| "output_text (result # rest) = [result_text result]"

definition sync_stream :: "gen_result list iterator \<Rightarrow> string iterator" where
  "sync_stream it =
     (case it of Iterator outputs raised \<Rightarrow>
        Iterator (concat (map output_text outputs))
          (case raised of None \<Rightarrow> None | Some e \<Rightarrow> None))"

datatype queue_item = QChunk string | QDone | QError string

definition run_stream :: "string iterator \<Rightarrow> queue_item list" where
  "run_stream it =
     (case it of Iterator chunks raised \<Rightarrow>
        map QChunk chunks @ (case raised of None \<Rightarrow> [QDone] | Some e \<Rightarrow> [QError e]))"

text \<open>How an asynchronous generator ends: it is exhausted, it raises, or it never
  continues.\<close>

datatype stream_end = StopIteration | Raised string | Blocked

fun stream_loop :: "queue_item list \<Rightarrow> string list \<times> stream_end" where
  "stream_loop [] = ([], Blocked)"
| "stream_loop (QChunk item_value # queue) =
     (case stream_loop queue of (chunks, ending) \<Rightarrow> (item_value # chunks, ending))"
| "stream_loop (QDone # queue) = ([], StopIteration)"
| "stream_loop (QError item_value # queue) = ([], StopIteration)"

definition stream_generator :: "gen_result list iterator \<Rightarrow> string list \<times> stream_end" where
  "stream_generator it = stream_loop (run_stream (sync_stream it))"

definition manager_generate_stream :: "'h backend \<Rightarrow> LMDeployServerConfig \<Rightarrow> rat \<Rightarrow> string \<Rightarrow> string \<Rightarrow> pyval pydict option \<Rightarrow> pyval pydict \<Rightarrow> 'h LMDeployManager \<Rightarrow> ((string list \<times> stream_end) option \<times> 'h LMDeployManager) option" where
  "manager_generate_stream b config now model_name prompt generation_config kwargs s =
     (if \<not> LMDEPLOY_AVAILABLE b then Some (None, s)
      else case load_model b config now model_name kwargs s of
        None \<Rightarrow> None
      | Some (None, s1) \<Rightarrow> Some (None, s1)
      | Some (Some pipe, s1) \<Rightarrow>
          (let gc = (case generation_config of
                       None \<Rightarrow> default_generation_config
                     | Some g \<Rightarrow> g)
           in Some (Some (stream_generator (stream_infer b pipe prompt gc)), s1)))"

text \<open>The asynchronous generator of the vLLM manager has no handler: it yields the
  non-empty texts of the outputs of every request output, stops after one that is
  finished, and lets an exception of the engine pass to its consumer.\<close>

record RequestOutput =
  outputs :: "string list"
  finished :: bool

fun vllm_stream_loop :: "RequestOutput list \<Rightarrow> string option \<Rightarrow> string list \<times> stream_end" where
  "vllm_stream_loop [] raised =
     ([], case raised of None \<Rightarrow> StopIteration | Some e \<Rightarrow> Raised e)"
| "vllm_stream_loop (request_output # rest) raised =
     (let texts = filter (\<lambda>text. text \<noteq> []) (outputs request_output) in
      if finished request_output then (texts, StopIteration)
      else case vllm_stream_loop rest raised of
             (chunks, ending) \<Rightarrow> (texts @ chunks, ending))"

definition vllm_stream_generator :: "RequestOutput iterator \<Rightarrow> string list \<times> stream_end" where
  "vllm_stream_generator results =
     (case results of Iterator request_outputs raised \<Rightarrow>
        vllm_stream_loop request_outputs raised)"

section \<open>server.py: generation endpoints\<close>

text \<open>
  \<open>str.split()\<close> with no argument: the maximal runs of characters that are not white
  space. Characters are code points below 256; the white space among them is what
  \<open>str.isspace\<close> accepts there.
\<close>

definition isspace :: "char \<Rightarrow> bool" where
  "isspace c = (of_char c \<in> set [9, 10, 11, 12, 13, 28, 29, 30, 31, 32, 133, 160 :: nat])"

fun split_words :: "string \<Rightarrow> string \<Rightarrow> string list" where
  "split_words word [] = (if word = [] then [] else [word])"
| "split_words word (c # cs) =
     (if isspace c
      then (if word = [] then split_words [] cs else word # split_words [] cs)
      else split_words (word @ [c]) cs)"

definition str_split :: "string \<Rightarrow> string list" where
  "str_split s = split_words [] s"

text \<open>\<open>int(x)\<close> on a float: truncation towards zero.\<close>

definition py_int :: "rat \<Rightarrow> int" where
  "py_int x = (if 0 \<le> x then \<lfloor>x\<rfloor> else \<lceil>x\<rceil>)"

record GenerateResponse =
  model :: string
  created_at :: string
  response :: string
  done' :: bool
  context' :: "int list option"
  total_duration :: "int option"
  load_duration :: "int option"
  prompt_eval_count :: "int option"
  prompt_eval_duration :: "int option"
  eval_count :: "int option"
  eval_duration :: "int option"

text \<open>A response with the four required fields and every optional field at its default
  \<open>None\<close>.\<close>

definition new_response :: "string \<Rightarrow> string \<Rightarrow> string \<Rightarrow> bool \<Rightarrow> GenerateResponse" where
  "new_response model_name stamp text is_done =
     \<lparr>model = model_name, created_at = stamp, response = text, done' = is_done,
      context' = None, total_duration = None, load_duration = None,
      prompt_eval_count = None, prompt_eval_duration = None, eval_count = None,
      eval_duration = None\<rparr>"

text \<open>
  \<open>generate_stream\<close> of the server, given what the manager's \<open>generate_stream\<close>
  returned. The loop \<open>relay\<close> appends every chunk to \<open>full_response\<close> and emits one
  object per chunk; \<open>stamps i\<close> is the wall-clock text of the \<open>i\<close>-th object. The objects
  are kept as records; the server sends each as one line of JSON.
\<close>

fun relay :: "string \<Rightarrow> (nat \<Rightarrow> string) \<Rightarrow> nat \<Rightarrow> string \<Rightarrow> string list \<Rightarrow> GenerateResponse list \<times> string" where
  "relay model_name stamps i full_response [] = ([], full_response)"
| "relay model_name stamps i full_response (chunk # rest) =
     (case relay model_name stamps (Suc i) (full_response @ chunk) rest of
        (responses, full) \<Rightarrow>
          (new_response model_name (stamps i) chunk False # responses, full))"

definition generate_stream :: "string \<Rightarrow> (nat \<Rightarrow> string) \<Rightarrow> rat \<Rightarrow> rat \<Rightarrow> (string list \<times> stream_end) option \<Rightarrow> GenerateResponse list" where
  "generate_stream model_name stamps start_time end_time stream =
     (case stream of
        None \<Rightarrow> [(new_response model_name (stamps 0) [] True)\<lparr>total_duration := Some 0\<rparr>]
      | Some (chunks, ending) \<Rightarrow>
          (case relay model_name stamps 0 [] chunks of
             (responses, full_response) \<Rightarrow>
               responses @
               (case ending of
                  StopIteration \<Rightarrow>
                    (let total = py_int ((end_time - start_time) * 1000) in
                     [(new_response model_name (stamps (length chunks)) [] True)
                        \<lparr>total_duration := Some total,
                         eval_count := Some (int (length (str_split full_response))),
                         eval_duration := Some total\<rparr>])
                | Raised e \<Rightarrow>
                    [(new_response model_name (stamps (length chunks)) (''Error: '' @ e) True)
                       \<lparr>total_duration := Some 0\<rparr>]
                | Blocked \<Rightarrow> [])))"

definition create_generation_config :: "bool \<Rightarrow> pyval pydict \<Rightarrow> pyval pydict option" where
  "create_generation_config server_available options =
     (if \<not> server_available then None
      else Some
        [(''temperature'', dict_get options ''temperature'' (PFloat (7 / 10))),
         (''top_p'', dict_get options ''top_p'' (PFloat (9 / 10))),
         (''top_k'', dict_get options ''top_k'' (PInt 40)),
         (''max_new_tokens'', dict_get options ''num_predict'' (PInt 512)),
         (''stop_words'', dict_get options ''stop'' (PList []))])"

record GenerateRequest =
  req_model :: string
  req_prompt :: string
  req_stream :: bool
  req_options :: "pyval pydict option"

text \<open>What an endpoint answers: an HTTP error with its status code, one JSON object, a
  stream of objects, or a status message. The detail texts of errors are left out.\<close>

datatype http_result =
    HTTPException int
  | JSONResponse GenerateResponse
  | StreamingResponse "GenerateResponse list"
  | StatusMessage string

text \<open>
  \<open>/api/generate\<close>. \<open>server_available\<close> is the flag of \<open>server.py\<close>, set by its own
  import of the library. The check of the flag is outside the \<open>try\<close> block; the
  \<open>HTTPException\<close> with status 500 raised inside it is caught by \<open>except Exception\<close>
  and raised again with status 500.
\<close>

definition generate :: "bool \<Rightarrow> 'h backend \<Rightarrow> LMDeployServerConfig \<Rightarrow> (nat \<Rightarrow> string) \<Rightarrow> rat \<Rightarrow> rat \<Rightarrow> rat \<Rightarrow> GenerateRequest \<Rightarrow> 'h LMDeployManager \<Rightarrow> (http_result \<times> 'h LMDeployManager) option" where
  "generate server_available b config stamps start_time now end_time request s =
     (if \<not> server_available then Some (HTTPException 503, s)
      else
        (let generation_config =
               create_generation_config server_available
                 (case req_options request of None \<Rightarrow> [] | Some options \<Rightarrow> options)
         in if req_stream request then
              (case manager_generate_stream b config now (req_model request)
                      (req_prompt request) generation_config [] s of
                 None \<Rightarrow> None
               | Some (stream, s') \<Rightarrow>
                   Some (StreamingResponse
                           (generate_stream (req_model request) stamps start_time end_time
                              stream), s'))
            else
              (case generate_text b config now (req_model request) (req_prompt request)
                      generation_config [] s of
                 None \<Rightarrow> None
               | Some (None, s') \<Rightarrow> Some (HTTPException 500, s')
               | Some (Some response_text, s') \<Rightarrow>
                   (let total = py_int ((end_time - start_time) * 1000) in
                    Some (JSONResponse
                            ((new_response (req_model request) (stamps 0) response_text True)
                               \<lparr>total_duration := Some total,
                                eval_count := Some (int (length (str_split response_text))),
                                eval_duration := Some total\<rparr>), s')))))"

text \<open>\<open>/api/models/load/{model_name}\<close>: no look at the flag; a \<open>None\<close> from the manager
  is answered with status 500.\<close>

definition load_model_endpoint :: "'h backend \<Rightarrow> LMDeployServerConfig \<Rightarrow> rat \<Rightarrow> string \<Rightarrow> 'h LMDeployManager \<Rightarrow> (http_result \<times> 'h LMDeployManager) option" where
  "load_model_endpoint b config now model_name s =
     (case load_model b config now model_name [] s of
        None \<Rightarrow> None
      | Some (None, s') \<Rightarrow> Some (HTTPException 500, s')
      | Some (Some pipe, s') \<Rightarrow> Some (StatusMessage ''success'', s'))"

section \<open>Example inputs\<close>

text \<open>A backend whose first construction fails and whose \<open>close\<close> raises, and a manager
  with two loaded models.\<close>

definition failing_once :: "nat backend" where
  "failing_once =
     \<lparr>LMDEPLOY_AVAILABLE = True,
      pipeline = (\<lambda>n model_name ec. if n = 0 then Raises ''CUDA out of memory'' else Built (100 + n)),
      close = (\<lambda>pipe. CloseRaises ''close failed''),
      infer = (\<lambda>pipe prompt gc. InferResults [HasText prompt]),
      stream_infer = (\<lambda>pipe prompt gc. Iterator [[HasText ''Hel'']] (Some ''engine died''))\<rparr>"

definition two_loaded :: "nat LMDeployManager" where
  "two_loaded =
     \<lparr>models = [(''a'', 1), (''b'', 2)],
      model_configs = [(''a'', []), (''b'', [])],
      last_used = [(''a'', 10), (''b'', 95)],
      loading_locks = [(''a'', False), (''b'', False)],
      constructions = []\<rparr>"

definition always_builds :: "nat backend" where
  "always_builds =
     \<lparr>LMDEPLOY_AVAILABLE = True,
      pipeline = (\<lambda>n model_name ec. Built (100 + n)),
      close = (\<lambda>pipe. CloseReturns),
      infer = (\<lambda>pipe prompt gc. InferResults [HasText prompt]),
      stream_infer = (\<lambda>pipe prompt gc. Iterator [[HasText ''Hel''], [HasText ''lo'']] None)\<rparr>"

definition vllm_builds :: "nat vllm_backend" where
  "vllm_builds =
     \<lparr>VLLM_AVAILABLE = True, from_engine_args = (\<lambda>n engine_args. EngineBuilt (200 + n))\<rparr>"

definition vllm_two_loaded :: "nat VLLMManager" where
  "vllm_two_loaded =
     \<lparr>models = [(''a'', 1), (''b'', 2)],
      model_configs = [(''a'', []), (''b'', [])],
      last_used = [(''a'', 10), (''b'', 95)],
      loading_locks = [(''a'', False), (''b'', False)],
      constructions = []\<rparr>"

definition vllm_fails_once :: "nat vllm_backend" where
  "vllm_fails_once =
     \<lparr>VLLM_AVAILABLE = True,
      from_engine_args =
        (\<lambda>n engine_args. if n = 0 then EngineRaises ''CUDA out of memory'' else EngineBuilt (200 + n))\<rparr>"

definition unavailable :: "nat backend" where
  "unavailable =
     \<lparr>LMDEPLOY_AVAILABLE = False,
      pipeline = (\<lambda>n model_name ec. ReturnsNone),
      close = (\<lambda>pipe. NoCloseAttr),
      infer = (\<lambda>pipe prompt gc. InferRaises ''no backend''),
      stream_infer = (\<lambda>pipe prompt gc. Iterator [] (Some ''no backend''))\<rparr>"







section \<open>Properties\<close>

subsection \<open>Dictionaries, unloading and eviction\<close>

lemma map_of_None_iff: "map_of d k = None \<longleftrightarrow> k \<notin> fst ` set d"
  by (simp add: map_of_eq_None_iff)

lemma dom_delete_eq: "fst ` set (AList.delete k d) = fst ` set d - {k}"
  by (induction d) auto

lemma try_close_None: "try_close b pipe = None"
  by (simp add: try_close_def split: close_outcome.split)

lemma unload_model_absent:
  "map_of (models s) model_name = None \<Longrightarrow> unload_model b model_name s = (Inr False, s)"
  by (simp add: unload_model_def)

lemma unload_model_cached:
  assumes "keys_agree s" and "map_of (models s) model_name = Some pipe"
  shows "unload_model b model_name s =
     (Inr True,
      s\<lparr>models := AList.delete model_name (models s),
        model_configs := AList.delete model_name (model_configs s),
        last_used := AList.delete model_name (last_used s)\<rparr>)"
proof -
  from assms(2) have "model_name \<in> fst ` set (models s)"
    by (metis map_of_None_iff option.distinct(1))
  with assms(1) have c: "map_of (model_configs s) model_name \<noteq> None"
    and l: "map_of (last_used s) model_name \<noteq> None"
    by (simp_all add: keys_agree_def map_of_None_iff)
  show ?thesis using assms(2) c l
    by (simp add: unload_model_def Let_def try_close_None)
qed

lemma keys_agree_delete:
  "keys_agree s \<Longrightarrow>
   keys_agree (s\<lparr>models := AList.delete k (models s),
        model_configs := AList.delete k (model_configs s),
        last_used := AList.delete k (last_used s)\<rparr>)"
  by (simp add: keys_agree_def dom_delete_eq)

lemma keys_agree_unload: "keys_agree s \<Longrightarrow> keys_agree (snd (unload_model b k s))"
proof (cases "map_of (models s) k")
  case None
  assume "keys_agree s"
  then show ?thesis using None by (simp add: unload_model_absent)
next
  case (Some pipe)
  assume "keys_agree s"
  then show ?thesis using Some by (simp add: unload_model_cached keys_agree_delete)
qed


lemma without_absent: "k \<notin> fst ` set d \<Longrightarrow> without (insert k K) d = without K d"
  unfolding without_def by (rule filter_cong) (auto simp: image_iff)

lemma without_delete: "without K (AList.delete k d) = without (insert k K) d"
  unfolding without_def by (induction d) auto

lemma unload_each_agree:
  "keys_agree s \<Longrightarrow>
   unload_each b ns s =
     (None, s\<lparr>models := without (set ns) (models s),
              model_configs := without (set ns) (model_configs s),
              last_used := without (set ns) (last_used s)\<rparr>)"
proof (induction ns arbitrary: s)
  case Nil
  show ?case by (simp add: without_def)
next
  case (Cons n ns)
  show ?case
  proof (cases "map_of (models s) n")
    case None
    then have a: "n \<notin> fst ` set (models s)" by (simp add: map_of_None_iff)
    with Cons.prems have b: "n \<notin> fst ` set (model_configs s)" and c: "n \<notin> fst ` set (last_used s)"
      by (simp_all add: keys_agree_def)
    show ?thesis
      using None Cons.IH [OF Cons.prems]
      by (simp add: unload_model_absent without_absent a b c)
  next
    case (Some pipe)
    let ?s' = "s\<lparr>models := AList.delete n (models s),
        model_configs := AList.delete n (model_configs s),
        last_used := AList.delete n (last_used s)\<rparr>"
    have "unload_each b (n # ns) s = unload_each b ns ?s'"
      using Some Cons.prems by (simp add: unload_model_cached)
    also have "\<dots> = (None, ?s'\<lparr>models := without (set ns) (models ?s'),
              model_configs := without (set ns) (model_configs ?s'),
              last_used := without (set ns) (last_used ?s')\<rparr>)"
      by (rule Cons.IH) (rule keys_agree_delete [OF Cons.prems])
    finally show ?thesis by (simp add: without_delete)
  qed
qed

lemma expired_iff: "expired now d lu k \<longleftrightarrow> k \<in> set (to_unload now d lu)"
  by (induction lu) (auto simp: expired_def to_unload_def)

lemma keep_fresh_without: "keep_fresh now d lu entries = without (set (to_unload now d lu)) entries"
  by (simp add: keep_fresh_def without_def expired_iff)

lemma cleanup_agree:
  "keys_agree s \<Longrightarrow>
   cleanup_unused_models b now d s =
     (None, s\<lparr>models := keep_fresh now d (last_used s) (models s),
              model_configs := keep_fresh now d (last_used s) (model_configs s),
              last_used := keep_fresh now d (last_used s) (last_used s)\<rparr>)"
  by (simp add: cleanup_unused_models_def unload_each_agree keep_fresh_without)

subsection \<open>Loading\<close>

lemma keys_agree_locks [simp]:
  "keys_agree (acquire k s) = keys_agree s"
  "keys_agree (release k s) = keys_agree s"
  "keys_agree (s\<lparr>loading_locks := ll\<rparr>) = keys_agree s"
  "keys_agree (s\<lparr>constructions := cs\<rparr>) = keys_agree s"
  by (simp_all add: keys_agree_def acquire_def release_def)

lemma lock_fields [simp]:
  "models (acquire k s) = models s" "model_configs (acquire k s) = model_configs s"
  "last_used (acquire k s) = last_used s" "constructions (acquire k s) = constructions s"
  "loading_locks (acquire k s) = AList.update k True (loading_locks s)"
  "models (release k s) = models s" "model_configs (release k s) = model_configs s"
  "last_used (release k s) = last_used s" "constructions (release k s) = constructions s"
  "loading_locks (release k s) = AList.update k False (loading_locks s)"
  by (simp_all add: acquire_def release_def)

lemma keys_agree_refresh:
  assumes "keys_agree s" and "map_of (models s) k = Some pipe"
  shows "keys_agree (s\<lparr>last_used := AList.update k now (last_used s)\<rparr>)"
proof -
  from assms(2) have "k \<in> fst ` set (models s)"
    by (metis map_of_None_iff option.distinct(1))
  with assms(1) show ?thesis
    by (auto simp: keys_agree_def dom_update)
qed

lemma keys_agree_store:
  "keys_agree s \<Longrightarrow>
   keys_agree (s\<lparr>models := AList.update k pipe (models s),
                model_configs := AList.update k mc (model_configs s),
                last_used := AList.update k now (last_used s)\<rparr>)"
  by (simp add: keys_agree_def dom_update)

lemma keys_agree_load_enter:
  "keys_agree s \<Longrightarrow> keys_agree (snd (load_enter b now k s))"
  by (auto simp: load_enter_def keys_agree_refresh split: option.split)

lemma keys_agree_load_locked:
  "keys_agree s \<Longrightarrow> keys_agree (snd (load_locked b config now k kwargs s))"
  by (auto simp: load_locked_def Let_def keys_agree_refresh [of "acquire k s", simplified] split: option.split)

lemma keys_agree_load_built:
  "keys_agree s \<Longrightarrow> keys_agree (snd (load_built outcome now k mc s))"
  by (cases outcome) (simp_all add: load_built_def keys_agree_store)

lemma keys_agree_load_model:
  assumes "keys_agree s" and "load_model b config now k kwargs s = Some (r, s')"
  shows "keys_agree s'"
proof -
  obtain n1 s1 where e: "load_enter b now k s = (n1, s1)" by (cases "load_enter b now k s")
  have k1: "keys_agree s1" using keys_agree_load_enter [OF assms(1), of b now k] e by simp
  show ?thesis
  proof (cases n1)
    case (Returns x)
    with e assms(2) show ?thesis using k1 by (simp add: load_model_def)
  next
    case AcquireLock
    obtain n2 s2 where l: "load_locked b config now k kwargs s1 = (n2, s2)"
      by (cases "load_locked b config now k kwargs s1")
    have k2: "keys_agree s2" using keys_agree_load_locked [OF k1, of b config now k kwargs] l by simp
    show ?thesis
    proof (cases n2)
      case (Returns x)
      with e l AcquireLock assms(2) k2 show ?thesis
        by (simp add: load_model_def split: if_splits)
    next
      case AcquireLock
      with e l \<open>n1 = AcquireLock\<close> assms(2) show ?thesis
        by (simp add: load_model_def split: if_splits)
    next
      case (RunPipeline mc ec)
      with e l AcquireLock assms(2)
      have "(r, s') = load_built (pipeline b (length (constructions s1)) k ec) now k mc s2"
        by (simp add: load_model_def split: if_splits)
      then have "s' = snd (load_built (pipeline b (length (constructions s1)) k ec) now k mc s2)"
        by (metis snd_conv)
      then show ?thesis using keys_agree_load_built [OF k2] by simp
    qed
  next
    case (RunPipeline mc ec)
    with e assms(2) show ?thesis by (simp add: load_model_def)
  qed
qed

text \<open>What a call that finds the identifier uncached and its lock free amounts to.\<close>

lemma load_model_uncached:
  assumes "LMDEPLOY_AVAILABLE b" and "map_of (models s) k = None" and "\<not> lock_held s k"
  shows "load_model b config now k kwargs s =
     Some (load_built (pipeline b (length (constructions s)) k (engine_config config (get_model_config k) kwargs))
        now k (get_model_config k)
        (s\<lparr>loading_locks := AList.update k True (loading_locks s),
           constructions := constructions s @ [(k, engine_config config (get_model_config k) kwargs)]\<rparr>))"
proof -
  let ?s1 = "if map_of (loading_locks s) k = None
           then s\<lparr>loading_locks := AList.update k False (loading_locks s)\<rparr> else s"
  have e: "load_enter b now k s = (AcquireLock, ?s1)"
    using assms by (simp add: load_enter_def)
  have h: "\<not> lock_held ?s1 k"
    using assms(3) by (simp add: lock_held_def update_conv')
  have m: "map_of (models ?s1) k = None" using assms(2) by simp
  have a: "acquire k ?s1 = s\<lparr>loading_locks := AList.update k True (loading_locks s)\<rparr>"
    by (simp add: acquire_def)
  have c: "constructions ?s1 = constructions s" by simp
  have l: "load_locked b config now k kwargs ?s1 =
      (RunPipeline (get_model_config k) (engine_config config (get_model_config k) kwargs),
       s\<lparr>loading_locks := AList.update k True (loading_locks s),
           constructions := constructions s @ [(k, engine_config config (get_model_config k) kwargs)]\<rparr>)"
    unfolding load_locked_def a using assms(1,2) by (simp add: Let_def)
  show ?thesis
    unfolding load_model_def e using h l c by simp
qed

lemma load_model_cached:
  assumes "LMDEPLOY_AVAILABLE b" and "map_of (models s) k = Some pipe"
  shows "load_model b config now k kwargs s =
     Some (Some pipe, s\<lparr>last_used := AList.update k now (last_used s)\<rparr>)"
  using assms by (simp add: load_model_def load_enter_def)

lemma load_model_unavailable:
  "\<not> LMDEPLOY_AVAILABLE b \<Longrightarrow> load_model b config now k kwargs s = Some (None, s)"
  by (simp add: load_model_def load_enter_def)

lemma load_built_failed:
  "\<forall>pipe. outcome \<noteq> Built pipe \<Longrightarrow> load_built outcome now k mc s = (None, release k s)"
  by (cases outcome) (simp_all add: load_built_def)

lemma load_model_failure:
  assumes avail: "LMDEPLOY_AVAILABLE b"
    and un: "map_of (models s) k = None"
    and free: "\<not> lock_held s k"
    and fail: "\<forall>pipe. pipeline b (length (constructions s)) k
                 (engine_config config (get_model_config k) kwargs) \<noteq> Built pipe"
  shows "load_model b config now k kwargs s =
     Some (None, s\<lparr>loading_locks := AList.update k False (loading_locks s),
           constructions := constructions s @ [(k, engine_config config (get_model_config k) kwargs)]\<rparr>)"
  unfolding load_model_uncached [OF avail un free] load_built_failed [OF fail]
  by (simp add: release_def)

subsection \<open>The vLLM manager\<close>

lemma vllm_unload_model_eq: "vllm_unload_model k s = unload_model b k s"
  by (simp add: vllm_unload_model_def unload_model_def try_close_None Let_def split: option.split)

lemma vllm_unload_each_eq: "vllm_unload_each ns s = unload_each b ns s"
  by (induction ns arbitrary: s)
    (simp_all add: vllm_unload_model_eq [of _ _ b] split: prod.split sum.split)

lemma vllm_cleanup_eq: "vllm_cleanup_unused_models now d s = cleanup_unused_models b now d s"
  by (simp add: vllm_cleanup_unused_models_def cleanup_unused_models_def vllm_unload_each_eq [of _ _ b])

lemma vllm_load_model_unavailable:
  "\<not> VLLM_AVAILABLE b \<Longrightarrow> vllm_load_model b config registry now k kwargs s = Some (None, s)"
  by (simp add: vllm_load_model_def)

lemma vllm_load_model_cached:
  "VLLM_AVAILABLE b \<Longrightarrow> map_of (models s) k = Some engine \<Longrightarrow>
   vllm_load_model b config registry now k kwargs s =
     Some (Some engine, s\<lparr>last_used := AList.update k now (last_used s)\<rparr>)"
  by (simp add: vllm_load_model_def)

lemma vllm_load_model_uncached:
  assumes "VLLM_AVAILABLE b" and "map_of (models s) k = None" and "\<not> lock_held s k"
  shows "vllm_load_model b config registry now k kwargs s =
     Some (case vllm_engine_args config (registry k) k kwargs of
        Inl e \<Rightarrow> (None, s\<lparr>loading_locks := AList.update k False (loading_locks s)\<rparr>)
      | Inr engine_args \<Rightarrow>
          (case from_engine_args b (length (constructions s)) engine_args of
             EngineRaises e \<Rightarrow>
               (None, s\<lparr>loading_locks := AList.update k False (loading_locks s),
                         constructions := constructions s @ [(k, engine_args)]\<rparr>)
           | EngineBuilt engine \<Rightarrow>
               (Some engine,
                s\<lparr>models := AList.update k engine (models s),
                  model_configs := AList.update k (registry k) (model_configs s),
                  last_used := AList.update k now (last_used s),
                  loading_locks := AList.update k False (loading_locks s),
                  constructions := constructions s @ [(k, engine_args)]\<rparr>)))"
proof -
  let ?s1 = "if map_of (loading_locks s) k = None
           then s\<lparr>loading_locks := AList.update k False (loading_locks s)\<rparr> else s"
  have h: "\<not> lock_held ?s1 k"
    using assms(3) by (simp add: lock_held_def update_conv')
  have a: "acquire k ?s1 = s\<lparr>loading_locks := AList.update k True (loading_locks s)\<rparr>"
    by (simp add: acquire_def)
  show ?thesis
    unfolding vllm_load_model_def Let_def a using assms(1,2) h
    by (simp add: release_def split: sum.split engine_outcome.split)
qed

lemma keys_agree_vllm_load_model:
  assumes "keys_agree s" and "vllm_load_model b config registry now k kwargs s = Some (r, s')"
  shows "keys_agree s'"
proof (cases "VLLM_AVAILABLE b")
  case False
  with assms show ?thesis by (simp add: vllm_load_model_unavailable)
next
  case True
  show ?thesis
  proof (cases "map_of (models s) k")
    case (Some engine)
    with True assms have "s' = s\<lparr>last_used := AList.update k now (last_used s)\<rparr>"
      by (simp add: vllm_load_model_cached)
    then show ?thesis using keys_agree_refresh [OF assms(1) Some] by simp
  next
    case None
    show ?thesis
    proof (cases "lock_held s k")
      case held: True
      then have "lock_held (if map_of (loading_locks s) k = None
           then s\<lparr>loading_locks := AList.update k False (loading_locks s)\<rparr> else s) k"
        by (auto simp: lock_held_def)
      with True None assms(2) show ?thesis
        by (simp add: vllm_load_model_def Let_def)
    next
      case False
      have "keys_agree (s\<lparr>models := AList.update k engine (models s),
                  model_configs := AList.update k mc (model_configs s),
                  last_used := AList.update k now (last_used s),
                  loading_locks := ll, constructions := cs\<rparr>)" for engine mc ll cs
        using keys_agree_store [OF assms(1), where k = k and pipe = engine and mc = mc and now = now]
        by (simp add: keys_agree_def)
      with assms True None False show ?thesis
        by (auto simp: vllm_load_model_uncached split: sum.splits engine_outcome.splits)
    qed
  qed
qed

subsection \<open>The flattened chat prompt\<close>

lemma upper_char_s: "upper_char (CHR ''s'') = CHR ''S''"
  by code_simp

lemma upper_char_u: "upper_char (CHR ''u'') = CHR ''U''"
  by code_simp

lemma upper_char_a: "upper_char (CHR ''a'') = CHR ''A''"
  by code_simp

lemma spec_line_system: "role m = ''system'' \<Longrightarrow> spec_line m = ''System: '' @ content m"
  by (simp add: spec_line_def upper_char_s)

lemma spec_line_user: "role m = ''user'' \<Longrightarrow> spec_line m = ''User: '' @ content m"
  by (simp add: spec_line_def upper_char_u)

lemma spec_line_assistant:
  "role m = ''assistant'' \<Longrightarrow> spec_line m = ''Assistant: '' @ content m"
  by (simp add: spec_line_def upper_char_a)

lemma prompt_parts_known:
  "list_all (\<lambda>m. known_role (role m)) messages \<Longrightarrow>
   prompt_parts messages = map spec_line messages"
proof (induction messages)
  case Nil
  show ?case by simp
next
  case (Cons m ms)
  from Cons.prems have k: "known_role (role m)" and rest: "list_all (\<lambda>m. known_role (role m)) ms"
    by simp_all
  from k consider "role m = ''system''" | "role m = ''user''" | "role m = ''assistant''"
    unfolding known_role_def by blast
  then have "prompt_parts [m] = [spec_line m]"
  proof cases
    case 1 then show ?thesis by (simp add: spec_line_system)
  next
    case 2 then show ?thesis by (simp add: spec_line_user)
  next
    case 3 then show ?thesis by (simp add: spec_line_assistant)
  qed
  moreover have "prompt_parts (m # ms) = prompt_parts [m] @ prompt_parts ms"
    by simp
  ultimately show ?case using Cons.IH [OF rest] by simp
qed

text \<open>
  C8. For every list of chat messages whose roles are system, user or assistant, the
  flattened prompt is the messages rendered as \<open>Role: content\<close> lines, joined by line
  feeds, followed by a line feed and \<open>Assistant: \<close>; the messages
  \<open>[{system, "be terse"}, {user, "hi"}]\<close> give exactly
  \<open>"System: be terse\nUser: hi\nAssistant: "\<close>.
\<close>

theorem format_prompt_from_messages_lines:
  "(list_all (\<lambda>m. known_role (role m)) messages \<longrightarrow>
      format_prompt_from_messages messages =
        str_join nl (map spec_line messages) @ nl @ ''Assistant: '')
   \<and> format_prompt_from_messages
        [\<lparr>role = ''system'', content = ''be terse''\<rparr>, \<lparr>role = ''user'', content = ''hi''\<rparr>]
      = ''System: be terse'' @ [CHR 0x0A] @ ''User: hi'' @ [CHR 0x0A] @ ''Assistant: ''"
proof
  show "list_all (\<lambda>m. known_role (role m)) messages \<longrightarrow>
      format_prompt_from_messages messages =
        str_join nl (map spec_line messages) @ nl @ ''Assistant: ''"
    by (simp add: format_prompt_from_messages_def prompt_parts_known)
  show "format_prompt_from_messages
        [\<lparr>role = ''system'', content = ''be terse''\<rparr>, \<lparr>role = ''user'', content = ''hi''\<rparr>]
      = ''System: be terse'' @ [CHR 0x0A] @ ''User: hi'' @ [CHR 0x0A] @ ''Assistant: ''"
    by (simp add: format_prompt_from_messages_def nl_def)
qed

theorem format_prompt_from_messages_lines_witness:
  "list_all (\<lambda>m. known_role (role m))
     [\<lparr>role = ''assistant'', content = ''ok''\<rparr>, \<lparr>role = ''user'', content = ''more''\<rparr>]
   \<and> format_prompt_from_messages
       [\<lparr>role = ''assistant'', content = ''ok''\<rparr>, \<lparr>role = ''user'', content = ''more''\<rparr>]
     = ''Assistant: ok'' @ [CHR 0x0A] @ ''User: more'' @ [CHR 0x0A] @ ''Assistant: ''"
  using format_prompt_from_messages_lines
    [of "[\<lparr>role = ''assistant'', content = ''ok''\<rparr>, \<lparr>role = ''user'', content = ''more''\<rparr>]"]
  by (simp add: known_role_def spec_line_def upper_char_a upper_char_u nl_def)

subsection \<open>Unloading and eviction: the claims\<close>

lemma keys_agree_two_loaded: "keys_agree two_loaded"
  by (simp add: keys_agree_def two_loaded_def)

text \<open>
  C4. \<open>unload_model\<close> of an identifier that is not cached returns \<open>False\<close> and leaves
  the manager as it is. Of a cached identifier (in a manager whose three dictionaries have
  the same keys) it returns \<open>True\<close> and deletes the identifier from the three
  dictionaries. The backend \<open>b\<close> is arbitrary: whatever \<open>close\<close> does on the handle, also
  when it raises, no exception leaves the \<open>try\<close> block and the result is the same. The
  vLLM manager, which has no cleanup step, does the same.
\<close>

theorem unload_model_result:
  "(map_of (models s) k = None \<longrightarrow>
      unload_model b k s = (Inr False, s) \<and> vllm_unload_model k s = (Inr False, s))
   \<and> (keys_agree s \<and> map_of (models s) k = Some pipe \<longrightarrow>
        try_close b pipe = None
        \<and> unload_model b k s =
            (Inr True,
             s\<lparr>models := AList.delete k (models s),
               model_configs := AList.delete k (model_configs s),
               last_used := AList.delete k (last_used s)\<rparr>)
        \<and> vllm_unload_model k s = unload_model b k s
        \<and> map_of (AList.delete k (models s)) k = None
        \<and> map_of (AList.delete k (model_configs s)) k = None
        \<and> map_of (AList.delete k (last_used s)) k = None)"
  by (simp add: unload_model_absent vllm_unload_model_eq [of k s b] unload_model_cached
      try_close_None delete_conv')

theorem unload_model_result_witness:
  "map_of (models two_loaded) ''c'' = None
   \<and> unload_model failing_once ''c'' two_loaded = (Inr False, two_loaded)
   \<and> keys_agree two_loaded \<and> map_of (models two_loaded) ''a'' = Some 1
   \<and> close failing_once 1 = CloseRaises ''close failed''
   \<and> unload_model failing_once ''a'' two_loaded =
        (Inr True,
         \<lparr>models = [(''b'', 2)], model_configs = [(''b'', [])], last_used = [(''b'', 95)],
          loading_locks = [(''a'', False), (''b'', False)], constructions = []\<rparr>)"
  using unload_model_result [where s = two_loaded and k = "''c''" and b = failing_once]
    unload_model_result [where s = two_loaded and k = "''a''" and pipe = 1 and b = failing_once]
  by (simp add: keys_agree_two_loaded) (simp add: two_loaded_def failing_once_def)

text \<open>
  C5. \<open>cleanup_unused_models\<close> with any maximal idle time \<open>d\<close> (in particular any
  \<open>d \<ge> 0\<close>) returns normally and keeps, in each of the three dictionaries, exactly the
  entries of the identifiers whose last use is not more than \<open>d\<close> before \<open>now\<close>, in their
  order and with their handle, configuration and timestamp; the entries of all other
  identifiers are gone. Both managers do the same.
\<close>

theorem cleanup_unused_models_removes_idle:
  "keys_agree s \<longrightarrow>
     cleanup_unused_models b now d s =
       (None, s\<lparr>models := keep_fresh now d (last_used s) (models s),
                model_configs := keep_fresh now d (last_used s) (model_configs s),
                last_used := keep_fresh now d (last_used s) (last_used s)\<rparr>)
     \<and> vllm_cleanup_unused_models now d s = cleanup_unused_models b now d s
     \<and> (\<forall>k. k \<in> fst ` set (keep_fresh now d (last_used s) (models s)) \<longleftrightarrow>
              k \<in> fst ` set (models s) \<and> \<not> expired now d (last_used s) k)
     \<and> (\<forall>k. \<not> expired now d (last_used s) k \<longrightarrow>
              map_of (keep_fresh now d (last_used s) (models s)) k = map_of (models s) k
              \<and> map_of (keep_fresh now d (last_used s) (model_configs s)) k = map_of (model_configs s) k
              \<and> map_of (keep_fresh now d (last_used s) (last_used s)) k = map_of (last_used s) k)"
proof (intro impI conjI allI)
  assume ka: "keys_agree s"
  show "cleanup_unused_models b now d s =
       (None, s\<lparr>models := keep_fresh now d (last_used s) (models s),
                model_configs := keep_fresh now d (last_used s) (model_configs s),
                last_used := keep_fresh now d (last_used s) (last_used s)\<rparr>)"
    by (rule cleanup_agree [OF ka])
  show "vllm_cleanup_unused_models now d s = cleanup_unused_models b now d s"
    by (rule vllm_cleanup_eq)
  show "k \<in> fst ` set (keep_fresh now d (last_used s) (models s)) \<longleftrightarrow>
              k \<in> fst ` set (models s) \<and> \<not> expired now d (last_used s) k" for k
    by (force simp: keep_fresh_def)
  have keep: "map_of (keep_fresh now d (last_used s) es) k = map_of es k"
    if "\<not> expired now d (last_used s) k" for k and es :: "'v pydict"
    using that unfolding keep_fresh_def by (induction es) auto
  show "map_of (keep_fresh now d (last_used s) (models s)) k = map_of (models s) k"
    if "\<not> expired now d (last_used s) k" for k using keep [OF that] .
  show "map_of (keep_fresh now d (last_used s) (model_configs s)) k = map_of (model_configs s) k"
    if "\<not> expired now d (last_used s) k" for k using keep [OF that] .
  show "map_of (keep_fresh now d (last_used s) (last_used s)) k = map_of (last_used s) k"
    if "\<not> expired now d (last_used s) k" for k using keep [OF that] .
qed

theorem cleanup_unused_models_removes_idle_witness:
  "keys_agree two_loaded
   \<and> expired 100 50 (last_used two_loaded) ''a''
   \<and> \<not> expired 100 50 (last_used two_loaded) ''b''
   \<and> cleanup_unused_models failing_once 100 50 two_loaded =
        (None,
         \<lparr>models = [(''b'', 2)], model_configs = [(''b'', [])], last_used = [(''b'', 95)],
          loading_locks = [(''a'', False), (''b'', False)], constructions = []\<rparr>)
   \<and> map_of (keep_fresh 100 50 (last_used two_loaded) (models two_loaded)) ''b'' = Some 2"
  using cleanup_unused_models_removes_idle
    [where s = two_loaded and b = failing_once and now = 100 and d = 50]
  by (simp add: keys_agree_two_loaded) (simp add: two_loaded_def keep_fresh_def expired_def)

subsection \<open>The key sets of the three dictionaries\<close>

lemma in_keys: "map_of d k = Some v \<Longrightarrow> k \<in> fst ` set d"
  by (metis map_of_None_iff option.distinct(1))

lemma load_built_fields [simp]:
  "constructions (snd (load_built outcome now k mc s)) = constructions s"
  "loading_locks (snd (load_built outcome now k mc s)) = AList.update k False (loading_locks s)"
  by (cases outcome; simp add: load_built_def)+

lemma load_model_success_keys:
  assumes ka: "keys_agree s" and l: "load_model b config now k kwargs s = Some (Some pipe, s')"
  shows "map_of (models s') k = Some pipe \<and> k \<in> fst ` set (model_configs s')
     \<and> k \<in> fst ` set (last_used s')"
proof -
  have ka': "keys_agree s'" by (rule keys_agree_load_model [OF ka l])
  have av: "LMDEPLOY_AVAILABLE b"
    using l by (cases "LMDEPLOY_AVAILABLE b") (simp_all add: load_model_unavailable)
  have "map_of (models s') k = Some pipe"
  proof (cases "map_of (models s) k")
    case (Some p)
    with l av show ?thesis by (auto simp: load_model_cached)
  next
    case None
    have free: "\<not> lock_held s k"
    proof
      assume "lock_held s k"
      then have "load_model b config now k kwargs s = None"
        using av None by (simp add: load_model_def load_enter_def lock_held_def)
      with l show False by simp
    qed
    let ?o = "pipeline b (length (constructions s)) k (engine_config config (get_model_config k) kwargs)"
    from l have "load_built ?o now k (get_model_config k)
        (s\<lparr>loading_locks := AList.update k True (loading_locks s),
           constructions := constructions s @ [(k, engine_config config (get_model_config k) kwargs)]\<rparr>)
       = (Some pipe, s')"
      by (simp add: load_model_uncached [OF av None free])
    then show ?thesis
      by (cases ?o) (auto simp: load_built_def update_conv')
  qed
  with ka' show ?thesis
    using in_keys [of "models s'" k pipe] by (simp add: keys_agree_def)
qed

lemma keys_agree_enter_lock:
  "keys_agree s \<Longrightarrow> keys_agree (snd (enter_lock b config now k kwargs s))"
  using keys_agree_load_locked [of s b config now k kwargs]
  by (auto simp: enter_lock_def split: prod.split load_next.split)

lemma keys_agree_resume:
  "keys_agree s \<Longrightarrow> keys_agree (snd (resume b config now t s))"
proof (cases t)
  case (Called k kwargs)
  assume ka: "keys_agree s"
  obtain n s1 where e: "load_enter b now k s = (n, s1)" by (cases "load_enter b now k s")
  have "keys_agree s1" using keys_agree_load_enter [OF ka, of b now k] e by simp
  then show ?thesis using Called e keys_agree_enter_lock [of s1 b config now k kwargs]
    by (cases n) simp_all
next
  case (Waiting k kwargs)
  assume "keys_agree s"
  then show ?thesis using Waiting by (simp add: keys_agree_enter_lock)
next
  case (InExecutor k mc ec n)
  assume "keys_agree s"
  then show ?thesis using InExecutor keys_agree_load_built [of s "pipeline b n k ec" now k mc]
    by (simp add: case_prod_unfold)
next
  case (Finished r)
  assume "keys_agree s"
  then show ?thesis using Finished by simp
qed

lemma unload_model_True_gone:
  assumes "keys_agree s" and "fst (unload_model b k s) = Inr True"
  shows "k \<notin> fst ` set (models (snd (unload_model b k s)))
     \<and> k \<notin> fst ` set (model_configs (snd (unload_model b k s)))
     \<and> k \<notin> fst ` set (last_used (snd (unload_model b k s)))"
proof (cases "map_of (models s) k")
  case None
  with assms(2) show ?thesis by (simp add: unload_model_absent)
next
  case (Some pipe)
  show ?thesis
    by (simp add: unload_model_cached [OF assms(1) Some] delete_notin_dom)
qed

lemma keys_keep_fresh:
  "fst ` set (keep_fresh now d lu es) = {k \<in> fst ` set es. \<not> expired now d lu k}"
  by (force simp: keep_fresh_def)

lemma keys_agree_cleanup:
  "keys_agree s \<Longrightarrow> keys_agree (snd (cleanup_unused_models b now d s))"
proof -
  assume ka: "keys_agree s"
  then show ?thesis by (simp add: cleanup_agree [OF ka] keys_agree_def keys_keep_fresh)
qed

lemma keys_agree_init: "keys_agree init_manager"
  by (simp add: keys_agree_def init_manager_def)

text \<open>
  C10. The manager starts with three empty dictionaries, and every operation keeps the key
  sets of the handle cache, the configuration dictionary and the last-used dictionary
  equal: a call of \<open>load_model\<close> that returns (and every single segment of one that is
  suspended in between), \<open>unload_model\<close>, which then never raises, and
  \<open>cleanup_unused_models\<close>. A load that returns a handle leaves the identifier in all
  three dictionaries, and an unload that returns \<open>True\<close> leaves it in none. The same holds
  for the operations of the vLLM manager.
\<close>

theorem manager_operations_keep_keys_agree:
  "keys_agree (init_manager :: 'h LMDeployManager)
   \<and> (keys_agree s \<longrightarrow>
        (\<forall>r s'. load_model b config now k kwargs s = Some (r, s') \<longrightarrow>
           keys_agree s'
           \<and> (r \<noteq> None \<longrightarrow>
                 k \<in> fst ` set (models s') \<and> k \<in> fst ` set (model_configs s')
                 \<and> k \<in> fst ` set (last_used s')))
        \<and> keys_agree (snd (resume b config now t s))
        \<and> (\<exists>r. fst (unload_model b k s) = Inr r)
        \<and> keys_agree (snd (unload_model b k s))
        \<and> (fst (unload_model b k s) = Inr True \<longrightarrow>
              k \<notin> fst ` set (models (snd (unload_model b k s)))
              \<and> k \<notin> fst ` set (model_configs (snd (unload_model b k s)))
              \<and> k \<notin> fst ` set (last_used (snd (unload_model b k s))))
        \<and> fst (cleanup_unused_models b now d s) = None
        \<and> keys_agree (snd (cleanup_unused_models b now d s)))
   \<and> (keys_agree v \<longrightarrow>
        (\<forall>r v'. vllm_load_model vb config registry now k kwargs v = Some (r, v') \<longrightarrow>
           keys_agree v')
        \<and> keys_agree (snd (vllm_unload_model k v))
        \<and> keys_agree (snd (vllm_cleanup_unused_models now d v)))"
proof (intro conjI impI allI)
  show "keys_agree (init_manager :: 'h LMDeployManager)" by (rule keys_agree_init)
next
  fix r s'
  assume ka: "keys_agree s" and l: "load_model b config now k kwargs s = Some (r, s')"
  show "keys_agree s'" by (rule keys_agree_load_model [OF ka l])
  assume "r \<noteq> None"
  then obtain pipe where "r = Some pipe" by auto
  with l have l': "load_model b config now k kwargs s = Some (Some pipe, s')" by simp
  from load_model_success_keys [OF ka l']
  show "k \<in> fst ` set (models s')" "k \<in> fst ` set (model_configs s')"
    "k \<in> fst ` set (last_used s')"
    by (simp_all add: in_keys)
next
  assume ka: "keys_agree s"
  show "keys_agree (snd (resume b config now t s))" by (rule keys_agree_resume [OF ka])
  show "\<exists>r. fst (unload_model b k s) = Inr r"
    by (cases "map_of (models s) k") (auto simp: unload_model_absent unload_model_cached [OF ka])
  show "keys_agree (snd (unload_model b k s))" by (rule keys_agree_unload [OF ka])
  show "fst (cleanup_unused_models b now d s) = None" by (simp add: cleanup_agree [OF ka])
  show "keys_agree (snd (cleanup_unused_models b now d s))" by (rule keys_agree_cleanup [OF ka])
next
  assume ka: "keys_agree s" and t: "fst (unload_model b k s) = Inr True"
  from unload_model_True_gone [OF ka t]
  show "k \<notin> fst ` set (models (snd (unload_model b k s)))"
    "k \<notin> fst ` set (model_configs (snd (unload_model b k s)))"
    "k \<notin> fst ` set (last_used (snd (unload_model b k s)))"
    by simp_all
next
  fix r v'
  assume "keys_agree v" and "vllm_load_model vb config registry now k kwargs v = Some (r, v')"
  then show "keys_agree v'" by (rule keys_agree_vllm_load_model)
next
  assume ka: "keys_agree v"
  show "keys_agree (snd (vllm_unload_model k v))"
    using keys_agree_unload [OF ka, of undefined k] by (simp add: vllm_unload_model_eq [of k v undefined])
  show "keys_agree (snd (vllm_cleanup_unused_models now d v))"
    using keys_agree_cleanup [OF ka, of undefined now d]
    by (simp add: vllm_cleanup_eq [of now d v undefined])
qed


lemma get_model_config_c: "get_model_config ''c'' =
   [(''max_model_len'', PInt 2048), (''tensor_parallel_size'', PInt 1),
    (''use_case'', PStr ''general''), (''description'', PStr ''Custom model: c'')]"
  by (simp add: get_model_config_def dict_get_def SUPPORTED_MODELS_def)

lemma load_c_two_loaded:
  "load_model always_builds field_defaults 100 ''c'' [] two_loaded =
     Some (Some 100,
       \<lparr>models = [(''a'', 1), (''b'', 2), (''c'', 100)],
        model_configs = [(''a'', []), (''b'', []), (''c'', get_model_config ''c'')],
        last_used = [(''a'', 10), (''b'', 95), (''c'', 100)],
        loading_locks = [(''a'', False), (''b'', False), (''c'', False)],
        constructions = [(''c'', engine_config field_defaults (get_model_config ''c'') [])]\<rparr>)"
proof -
  have a: "LMDEPLOY_AVAILABLE always_builds" by (simp add: always_builds_def)
  have b: "map_of (models two_loaded) ''c'' = None" by (simp add: two_loaded_def)
  have c: "\<not> lock_held two_loaded ''c''" by (simp add: two_loaded_def lock_held_def)
  show ?thesis
    unfolding load_model_uncached [OF a b c]
    by (simp add: always_builds_def load_built_def two_loaded_def release_def)
qed

lemma vllm_load_c_init:
  "vllm_load_model vllm_builds field_defaults get_model_config 100 ''c'' [] init_manager =
     Some (Some 200,
       \<lparr>models = [(''c'', 200)],
        model_configs = [(''c'', get_model_config ''c'')],
        last_used = [(''c'', 100)],
        loading_locks = [(''c'', False)],
        constructions =
          [(''c'', [(''model'', PStr ''c''), (''max_model_len'', PInt 2048),
                   (''max_num_seqs'', PInt 256), (''tensor_parallel_size'', PInt 1),
                   (''gpu_memory_utilization'', PFloat (9 / 10))])]\<rparr>)"
proof -
  have a: "VLLM_AVAILABLE vllm_builds" by (simp add: vllm_builds_def)
  have b: "map_of (models (init_manager :: nat VLLMManager)) ''c'' = None"
    by (simp add: init_manager_def)
  have c: "\<not> lock_held (init_manager :: nat VLLMManager) ''c''"
    by (simp add: init_manager_def lock_held_def)
  have e: "vllm_engine_args field_defaults (get_model_config ''c'') ''c'' [] =
     Inr [(''model'', PStr ''c''), (''max_model_len'', PInt 2048),
                   (''max_num_seqs'', PInt 256), (''tensor_parallel_size'', PInt 1),
                   (''gpu_memory_utilization'', PFloat (9 / 10))]"
    by (simp add: vllm_engine_args_def get_model_config_c dict_get_def field_defaults_def)
  show ?thesis
    unfolding vllm_load_model_uncached [OF a b c] e
    by (simp add: vllm_builds_def init_manager_def)
qed

lemma keys_agree_vllm_two_loaded: "keys_agree vllm_two_loaded"
  by (simp add: keys_agree_def vllm_two_loaded_def)

theorem manager_operations_keep_keys_agree_witness:
  "keys_agree two_loaded
   \<and> (case load_model always_builds field_defaults 100 ''c'' [] two_loaded of
        None \<Rightarrow> False
      | Some (r, s') \<Rightarrow>
          r = Some 100 \<and> keys_agree s' \<and> ''c'' \<in> fst ` set (models s')
          \<and> ''c'' \<in> fst ` set (model_configs s') \<and> ''c'' \<in> fst ` set (last_used s'))
   \<and> keys_agree (snd (resume always_builds field_defaults 100 (Called ''c'' []) two_loaded))
   \<and> fst (unload_model always_builds ''a'' two_loaded) = Inr True
   \<and> keys_agree (snd (unload_model always_builds ''a'' two_loaded))
   \<and> ''a'' \<notin> fst ` set (models (snd (unload_model always_builds ''a'' two_loaded)))
   \<and> keys_agree (snd (cleanup_unused_models always_builds 100 50 two_loaded))
   \<and> keys_agree (init_manager :: nat VLLMManager)
   \<and> (case vllm_load_model vllm_builds field_defaults get_model_config 100 ''c'' [] init_manager of
        None \<Rightarrow> False
      | Some (r, v') \<Rightarrow> r = Some 200 \<and> keys_agree v')
   \<and> keys_agree (snd (vllm_unload_model ''a'' vllm_two_loaded))
   \<and> keys_agree (snd (vllm_cleanup_unused_models 100 50 vllm_two_loaded))"
proof -
  have "map_of (models two_loaded) ''a'' = Some 1" by (simp add: two_loaded_def)
  then have u: "fst (unload_model always_builds ''a'' two_loaded) = Inr True"
    by (simp add: unload_model_cached [OF keys_agree_two_loaded])
  show ?thesis
    using manager_operations_keep_keys_agree
      [where s = two_loaded and b = always_builds and config = field_defaults and now = 100
         and k = "''c''" and kwargs = "[]" and t = "Called ''c'' []" and d = 50
         and v = "init_manager :: nat VLLMManager" and vb = vllm_builds
         and registry = get_model_config]
      manager_operations_keep_keys_agree
      [where s = two_loaded and b = always_builds and config = field_defaults and now = 100
         and k = "''a''" and kwargs = "[]" and t = "Called ''c'' []" and d = 50
         and v = vllm_two_loaded and vb = vllm_builds and registry = get_model_config]
    by (simp add: keys_agree_two_loaded load_c_two_loaded vllm_load_c_init keys_agree_init u
        keys_agree_vllm_two_loaded)
qed

subsection \<open>Failed loads\<close>

lemma lock_held_after_release [simp]: "\<not> lock_held (s\<lparr>loading_locks := AList.update k False ll\<rparr>) k"
  by (simp add: lock_held_def update_conv')

lemma load_model_retry:
  assumes avail: "LMDEPLOY_AVAILABLE b" and un: "map_of (models s) k = None"
    and free: "\<not> lock_held s k"
  shows "\<exists>r s'. load_model b config now k kwargs s = Some (r, s')
     \<and> constructions s' =
         constructions s @ [(k, engine_config config (get_model_config k) kwargs)]
     \<and> (\<forall>pipe. pipeline b (length (constructions s)) k
                 (engine_config config (get_model_config k) kwargs) = Built pipe \<longrightarrow>
           r = Some pipe \<and> map_of (models s') k = Some pipe
           \<and> map_of (model_configs s') k = Some (get_model_config k)
           \<and> map_of (last_used s') k = Some now)"
proof -
  let ?ec = "engine_config config (get_model_config k) kwargs"
  let ?o = "pipeline b (length (constructions s)) k ?ec"
  let ?s1 = "s\<lparr>loading_locks := AList.update k True (loading_locks s),
           constructions := constructions s @ [(k, ?ec)]\<rparr>"
  have l: "load_model b config now k kwargs s = Some (load_built ?o now k (get_model_config k) ?s1)"
    by (rule load_model_uncached [OF avail un free])
  obtain r s' where p: "load_built ?o now k (get_model_config k) ?s1 = (r, s')"
    by (cases "load_built ?o now k (get_model_config k) ?s1")
  have c: "constructions s' = constructions s @ [(k, ?ec)]"
    using load_built_fields(1) [of ?o now k "get_model_config k" ?s1] p by simp
  have b: "r = Some pipe \<and> map_of (models s') k = Some pipe
           \<and> map_of (model_configs s') k = Some (get_model_config k)
           \<and> map_of (last_used s') k = Some now" if "?o = Built pipe" for pipe
    using p that by (auto simp: load_built_def update_conv')
  show ?thesis using l p c b by auto
qed

text \<open>
  C3. When the backend is available, the identifier is not cached, no other call holds
  its lock and the construction fails (\<open>pipeline\<close> raises or returns \<open>None\<close>),
  \<open>load_model\<close> returns \<open>None\<close> and leaves the handle cache, the configuration dictionary
  and the last-used dictionary exactly as they were; the only traces are the released lock
  of the identifier and the recorded construction attempt. A later call for the same
  identifier, with any arguments, starts another construction, and if that one succeeds
  it returns the new handle and stores it. The vLLM manager behaves in the same way when
  building the engine arguments or the engine raises.
\<close>

theorem load_model_failure_leaves_no_entry:
  "(LMDEPLOY_AVAILABLE b \<and> map_of (models s) k = None \<and> \<not> lock_held s k
     \<and> (\<forall>pipe. pipeline b (length (constructions s)) k
                 (engine_config config (get_model_config k) kwargs) \<noteq> Built pipe)
    \<longrightarrow> (\<exists>s'. load_model b config now k kwargs s = Some (None, s')
          \<and> models s' = models s \<and> model_configs s' = model_configs s
          \<and> last_used s' = last_used s
          \<and> loading_locks s' = AList.update k False (loading_locks s)
          \<and> constructions s' =
              constructions s @ [(k, engine_config config (get_model_config k) kwargs)]
          \<and> (\<forall>now' kwargs'. \<exists>r s''.
                load_model b config now' k kwargs' s' = Some (r, s'')
                \<and> constructions s'' =
                    constructions s' @ [(k, engine_config config (get_model_config k) kwargs')]
                \<and> (\<forall>pipe. pipeline b (length (constructions s')) k
                       (engine_config config (get_model_config k) kwargs') = Built pipe \<longrightarrow>
                     r = Some pipe \<and> map_of (models s'') k = Some pipe
                     \<and> map_of (model_configs s'') k = Some (get_model_config k)
                     \<and> map_of (last_used s'') k = Some now'))))
   \<and> (VLLM_AVAILABLE vb \<and> map_of (models v) k = None \<and> \<not> lock_held v k
       \<and> (\<forall>engine_args engine. vllm_engine_args config (registry k) k kwargs = Inr engine_args \<longrightarrow>
              from_engine_args vb (length (constructions v)) engine_args \<noteq> EngineBuilt engine)
    \<longrightarrow> (\<exists>v'. vllm_load_model vb config registry now k kwargs v = Some (None, v')
          \<and> models v' = models v \<and> model_configs v' = model_configs v
          \<and> last_used v' = last_used v
          \<and> loading_locks v' = AList.update k False (loading_locks v)
          \<and> (\<forall>now' kwargs' engine_args. 
                vllm_engine_args config (registry k) k kwargs' = Inr engine_args \<longrightarrow>
                (\<exists>r v''. vllm_load_model vb config registry now' k kwargs' v' = Some (r, v'')
                   \<and> constructions v'' = constructions v' @ [(k, engine_args)]
                   \<and> (\<forall>engine. from_engine_args vb (length (constructions v')) engine_args
                          = EngineBuilt engine \<longrightarrow>
                        r = Some engine \<and> map_of (models v'') k = Some engine)))))"
proof (intro conjI impI)
  assume h: "LMDEPLOY_AVAILABLE b \<and> map_of (models s) k = None \<and> \<not> lock_held s k
     \<and> (\<forall>pipe. pipeline b (length (constructions s)) k
                 (engine_config config (get_model_config k) kwargs) \<noteq> Built pipe)"
  let ?s' = "s\<lparr>loading_locks := AList.update k False (loading_locks s),
           constructions := constructions s @ [(k, engine_config config (get_model_config k) kwargs)]\<rparr>"
  have l: "load_model b config now k kwargs s = Some (None, ?s')"
    using h by (intro load_model_failure) simp_all
  have un': "map_of (models ?s') k = None" using h by simp
  have free': "\<not> lock_held ?s' k" by (simp add: lock_held_def update_conv')
  have av: "LMDEPLOY_AVAILABLE b" using h by simp
  note retry = load_model_retry [OF av un' free']
  show "\<exists>s'. load_model b config now k kwargs s = Some (None, s')
          \<and> models s' = models s \<and> model_configs s' = model_configs s
          \<and> last_used s' = last_used s
          \<and> loading_locks s' = AList.update k False (loading_locks s)
          \<and> constructions s' =
              constructions s @ [(k, engine_config config (get_model_config k) kwargs)]
          \<and> (\<forall>now' kwargs'. \<exists>r s''.
                load_model b config now' k kwargs' s' = Some (r, s'')
                \<and> constructions s'' =
                    constructions s' @ [(k, engine_config config (get_model_config k) kwargs')]
                \<and> (\<forall>pipe. pipeline b (length (constructions s')) k
                       (engine_config config (get_model_config k) kwargs') = Built pipe \<longrightarrow>
                     r = Some pipe \<and> map_of (models s'') k = Some pipe
                     \<and> map_of (model_configs s'') k = Some (get_model_config k)
                     \<and> map_of (last_used s'') k = Some now'))"
    apply (rule exI [of _ ?s'])
    apply (intro conjI allI)
          apply (rule l)
         apply simp
        apply simp
       apply simp
      apply simp
     apply simp
    apply (rule retry)
    done
next
  assume h: "VLLM_AVAILABLE vb \<and> map_of (models v) k = None \<and> \<not> lock_held v k
       \<and> (\<forall>engine_args engine. vllm_engine_args config (registry k) k kwargs = Inr engine_args \<longrightarrow>
              from_engine_args vb (length (constructions v)) engine_args \<noteq> EngineBuilt engine)"
  then have av: "VLLM_AVAILABLE vb" and un: "map_of (models v) k = None"
    and free: "\<not> lock_held v k" by simp_all
  obtain r v' where l: "vllm_load_model vb config registry now k kwargs v = Some (r, v')"
    by (cases "vllm_load_model vb config registry now k kwargs v")
       (auto simp: vllm_load_model_uncached [OF av un free])
  have f: "r = None \<and> models v' = models v \<and> model_configs v' = model_configs v
          \<and> last_used v' = last_used v
          \<and> loading_locks v' = AList.update k False (loading_locks v)"
    using l h unfolding vllm_load_model_uncached [OF av un free]
    by (auto split: sum.splits engine_outcome.splits)
  then have un': "map_of (models v') k = None" and free': "\<not> lock_held v' k"
    using un by (simp_all add: lock_held_def update_conv')
  have retry: "\<exists>r v''. vllm_load_model vb config registry now' k kwargs' v' = Some (r, v'')
                   \<and> constructions v'' = constructions v' @ [(k, engine_args)]
                   \<and> (\<forall>engine. from_engine_args vb (length (constructions v')) engine_args
                          = EngineBuilt engine \<longrightarrow>
                        r = Some engine \<and> map_of (models v'') k = Some engine)"
    if "vllm_engine_args config (registry k) k kwargs' = Inr engine_args"
    for now' kwargs' engine_args
    unfolding vllm_load_model_uncached [OF av un' free'] that
    by (cases "from_engine_args vb (length (constructions v')) engine_args")
       (simp_all add: update_conv')
  show "\<exists>v'. vllm_load_model vb config registry now k kwargs v = Some (None, v')
          \<and> models v' = models v \<and> model_configs v' = model_configs v
          \<and> last_used v' = last_used v
          \<and> loading_locks v' = AList.update k False (loading_locks v)
          \<and> (\<forall>now' kwargs' engine_args. 
                vllm_engine_args config (registry k) k kwargs' = Inr engine_args \<longrightarrow>
                (\<exists>r v''. vllm_load_model vb config registry now' k kwargs' v' = Some (r, v'')
                   \<and> constructions v'' = constructions v' @ [(k, engine_args)]
                   \<and> (\<forall>engine. from_engine_args vb (length (constructions v')) engine_args
                          = EngineBuilt engine \<longrightarrow>
                        r = Some engine \<and> map_of (models v'') k = Some engine)))"
    using l f retry by (intro exI [of _ v']) auto
qed


lemma vllm_engine_args_c:
  "vllm_engine_args field_defaults (get_model_config ''c'') ''c'' [] =
     Inr [(''model'', PStr ''c''), (''max_model_len'', PInt 2048),
          (''max_num_seqs'', PInt 256), (''tensor_parallel_size'', PInt 1),
          (''gpu_memory_utilization'', PFloat (9 / 10))]"
  by (simp add: vllm_engine_args_def get_model_config_c dict_get_def field_defaults_def)

theorem load_model_failure_leaves_no_entry_witness:
  "LMDEPLOY_AVAILABLE failing_once \<and> map_of (models two_loaded) ''c'' = None
   \<and> \<not> lock_held two_loaded ''c''
   \<and> pipeline failing_once (length (constructions two_loaded)) ''c''
        (engine_config field_defaults (get_model_config ''c'') []) = Raises ''CUDA out of memory''
   \<and> (case load_model failing_once field_defaults 100 ''c'' [] two_loaded of
        None \<Rightarrow> False
      | Some (r, s') \<Rightarrow>
          r = None \<and> models s' = [(''a'', 1), (''b'', 2)]
          \<and> model_configs s' = [(''a'', []), (''b'', [])]
          \<and> last_used s' = [(''a'', 10), (''b'', 95)]
          \<and> length (constructions s') = 1
          \<and> (case load_model failing_once field_defaults 200 ''c'' [] s' of
                None \<Rightarrow> False
              | Some (r', s'') \<Rightarrow>
                  r' = Some 101 \<and> map_of (models s'') ''c'' = Some 101
                  \<and> length (constructions s'') = 2))
   \<and> VLLM_AVAILABLE vllm_fails_once
   \<and> from_engine_args vllm_fails_once 0
        [(''model'', PStr ''c''), (''max_model_len'', PInt 2048),
         (''max_num_seqs'', PInt 256), (''tensor_parallel_size'', PInt 1),
         (''gpu_memory_utilization'', PFloat (9 / 10))] = EngineRaises ''CUDA out of memory''
   \<and> (case vllm_load_model vllm_fails_once field_defaults get_model_config 100 ''c'' []
              init_manager of
        None \<Rightarrow> False
      | Some (r, v') \<Rightarrow>
          r = None \<and> models v' = [] \<and> model_configs v' = [] \<and> last_used v' = []
          \<and> (case vllm_load_model vllm_fails_once field_defaults get_model_config 200 ''c'' [] v' of
                None \<Rightarrow> False
              | Some (r', v'') \<Rightarrow> r' = Some 201 \<and> map_of (models v'') ''c'' = Some 201))"
proof -
  have h1: "LMDEPLOY_AVAILABLE failing_once \<and> map_of (models two_loaded) ''c'' = None
     \<and> \<not> lock_held two_loaded ''c''
     \<and> (\<forall>pipe. pipeline failing_once (length (constructions two_loaded)) ''c''
                 (engine_config field_defaults (get_model_config ''c'') []) \<noteq> Built pipe)"
    by (simp add: failing_once_def two_loaded_def lock_held_def)
  have h2: "VLLM_AVAILABLE vllm_fails_once
      \<and> map_of (models (init_manager :: nat VLLMManager)) ''c'' = None
      \<and> \<not> lock_held (init_manager :: nat VLLMManager) ''c''
      \<and> (\<forall>engine_args engine.
            vllm_engine_args field_defaults (get_model_config ''c'') ''c'' [] = Inr engine_args \<longrightarrow>
            from_engine_args vllm_fails_once (length (constructions (init_manager :: nat VLLMManager)))
              engine_args \<noteq> EngineBuilt engine)"
    by (simp add: vllm_fails_once_def init_manager_def lock_held_def)
  note inst = load_model_failure_leaves_no_entry
      [where b = failing_once and s = two_loaded and k = "''c''" and config = field_defaults
         and kwargs = "[]" and now = 100 and vb = vllm_fails_once
         and v = "init_manager :: nat VLLMManager" and registry = get_model_config]
  from inst [THEN conjunct1, rule_format, OF h1]
  obtain s' where A: "load_model failing_once field_defaults 100 ''c'' [] two_loaded = Some (None, s')
          \<and> models s' = models two_loaded \<and> model_configs s' = model_configs two_loaded
          \<and> last_used s' = last_used two_loaded
          \<and> loading_locks s' = AList.update ''c'' False (loading_locks two_loaded)
          \<and> constructions s' =
              constructions two_loaded @ [(''c'', engine_config field_defaults (get_model_config ''c'') [])]
          \<and> (\<forall>now' kwargs'. \<exists>r s''.
                load_model failing_once field_defaults now' ''c'' kwargs' s' = Some (r, s'')
                \<and> constructions s'' =
                    constructions s' @ [(''c'', engine_config field_defaults (get_model_config ''c'') kwargs')]
                \<and> (\<forall>pipe. pipeline failing_once (length (constructions s')) ''c''
                       (engine_config field_defaults (get_model_config ''c'') kwargs') = Built pipe \<longrightarrow>
                     r = Some pipe \<and> map_of (models s'') ''c'' = Some pipe
                     \<and> map_of (model_configs s'') ''c'' = Some (get_model_config ''c'')
                     \<and> map_of (last_used s'') ''c'' = Some now'))" ..
  note l1 = A [THEN conjunct1]
  note m1 = A [THEN conjunct2, THEN conjunct1] A [THEN conjunct2, THEN conjunct2, THEN conjunct1]
    A [THEN conjunct2, THEN conjunct2, THEN conjunct2, THEN conjunct1]
  note c1 = A [THEN conjunct2, THEN conjunct2, THEN conjunct2, THEN conjunct2, THEN conjunct2,
      THEN conjunct1]
  note r1 = A [THEN conjunct2, THEN conjunct2, THEN conjunct2, THEN conjunct2, THEN conjunct2,
      THEN conjunct2, THEN spec, THEN spec]
  from r1 [of 200 "[]"] obtain r s'' where B:
    "load_model failing_once field_defaults 200 ''c'' [] s' = Some (r, s'')
      \<and> constructions s'' =
            constructions s' @ [(''c'', engine_config field_defaults (get_model_config ''c'') [])]
      \<and> (\<forall>pipe. pipeline failing_once (length (constructions s')) ''c''
               (engine_config field_defaults (get_model_config ''c'') []) = Built pipe \<longrightarrow>
             r = Some pipe \<and> map_of (models s'') ''c'' = Some pipe
             \<and> map_of (model_configs s'') ''c'' = Some (get_model_config ''c'')
             \<and> map_of (last_used s'') ''c'' = Some 200)"
    by (elim exE)
  note l2 = B [THEN conjunct1]
  note c2 = B [THEN conjunct2, THEN conjunct1]
  note b2 = B [THEN conjunct2, THEN conjunct2, THEN spec, THEN mp]
  have len1: "length (constructions s') = 1" using c1 by (simp add: two_loaded_def)
  have "pipeline failing_once (length (constructions s')) ''c''
               (engine_config field_defaults (get_model_config ''c'') []) = Built 101"
    by (simp add: len1 failing_once_def)
  from b2 [OF this] have b2': "r = Some 101" "map_of (models s'') ''c'' = Some 101" by simp_all
  have part1: "(case load_model failing_once field_defaults 100 ''c'' [] two_loaded of
        None \<Rightarrow> False
      | Some (r, s') \<Rightarrow>
          r = None \<and> models s' = [(''a'', 1), (''b'', 2)]
          \<and> model_configs s' = [(''a'', []), (''b'', [])]
          \<and> last_used s' = [(''a'', 10), (''b'', 95)]
          \<and> length (constructions s') = 1
          \<and> (case load_model failing_once field_defaults 200 ''c'' [] s' of
                None \<Rightarrow> False
              | Some (r', s'') \<Rightarrow>
                  r' = Some 101 \<and> map_of (models s'') ''c'' = Some 101
                  \<and> length (constructions s'') = 2))"
    using l1 m1 len1 l2 b2' c2 by (simp add: two_loaded_def)
  from inst [THEN conjunct2, rule_format, OF h2]
  obtain v' where C:
    "vllm_load_model vllm_fails_once field_defaults get_model_config 100 ''c'' [] init_manager
        = Some (None, v')
      \<and> models v' = models (init_manager :: nat VLLMManager)
      \<and> model_configs v' = model_configs (init_manager :: nat VLLMManager)
      \<and> last_used v' = last_used (init_manager :: nat VLLMManager)
      \<and> loading_locks v' = AList.update ''c'' False (loading_locks (init_manager :: nat VLLMManager))
      \<and> (\<forall>now' kwargs' engine_args.
            vllm_engine_args field_defaults (get_model_config ''c'') ''c'' kwargs' = Inr engine_args \<longrightarrow>
            (\<exists>r v''. vllm_load_model vllm_fails_once field_defaults get_model_config now' ''c'' kwargs' v'
                   = Some (r, v'')
               \<and> constructions v'' = constructions v' @ [(''c'', engine_args)]
               \<and> (\<forall>engine. from_engine_args vllm_fails_once (length (constructions v')) engine_args
                      = EngineBuilt engine \<longrightarrow>
                    r = Some engine \<and> map_of (models v'') ''c'' = Some engine)))" ..
  note k1 = C [THEN conjunct1]
  note n1 = C [THEN conjunct2, THEN conjunct1] C [THEN conjunct2, THEN conjunct2, THEN conjunct1]
    C [THEN conjunct2, THEN conjunct2, THEN conjunct2, THEN conjunct1]
  note q1 = C [THEN conjunct2, THEN conjunct2, THEN conjunct2, THEN conjunct2, THEN conjunct2,
      THEN spec, THEN spec, THEN spec, THEN mp]
  have cv: "constructions v' = [(''c'', [(''model'', PStr ''c''), (''max_model_len'', PInt 2048),
          (''max_num_seqs'', PInt 256), (''tensor_parallel_size'', PInt 1),
          (''gpu_memory_utilization'', PFloat (9 / 10))])]"
  proof -
    have a: "VLLM_AVAILABLE vllm_fails_once" by (simp add: vllm_fails_once_def)
    have b: "map_of (models (init_manager :: nat VLLMManager)) ''c'' = None"
      by (simp add: init_manager_def)
    have c: "\<not> lock_held (init_manager :: nat VLLMManager) ''c''"
      by (simp add: init_manager_def lock_held_def)
    show ?thesis
      using k1 unfolding vllm_load_model_uncached [OF a b c] vllm_engine_args_c
      by (auto simp: vllm_fails_once_def init_manager_def)
  qed
  from q1 [OF vllm_engine_args_c, of 200] obtain r' v'' where D:
    "vllm_load_model vllm_fails_once field_defaults get_model_config 200 ''c'' [] v' = Some (r', v'')
     \<and> constructions v'' = constructions v' @
         [(''c'', [(''model'', PStr ''c''), (''max_model_len'', PInt 2048),
          (''max_num_seqs'', PInt 256), (''tensor_parallel_size'', PInt 1),
          (''gpu_memory_utilization'', PFloat (9 / 10))])]
     \<and> (\<forall>engine. from_engine_args vllm_fails_once (length (constructions v'))
        [(''model'', PStr ''c''), (''max_model_len'', PInt 2048),
          (''max_num_seqs'', PInt 256), (''tensor_parallel_size'', PInt 1),
          (''gpu_memory_utilization'', PFloat (9 / 10))] = EngineBuilt engine \<longrightarrow>
        r' = Some engine \<and> map_of (models v'') ''c'' = Some engine)"
    by (elim exE)
  note k2 = D [THEN conjunct1]
  note e2 = D [THEN conjunct2, THEN conjunct2, THEN spec, THEN mp]
  have "from_engine_args vllm_fails_once (length (constructions v'))
        [(''model'', PStr ''c''), (''max_model_len'', PInt 2048),
          (''max_num_seqs'', PInt 256), (''tensor_parallel_size'', PInt 1),
          (''gpu_memory_utilization'', PFloat (9 / 10))] = EngineBuilt 201"
    by (simp add: cv vllm_fails_once_def)
  from e2 [OF this] have e2': "r' = Some 201" "map_of (models v'') ''c'' = Some 201" by simp_all
  have part2: "(case vllm_load_model vllm_fails_once field_defaults get_model_config 100 ''c'' []
              init_manager of
        None \<Rightarrow> False
      | Some (r, v') \<Rightarrow>
          r = None \<and> models v' = [] \<and> model_configs v' = [] \<and> last_used v' = []
          \<and> (case vllm_load_model vllm_fails_once field_defaults get_model_config 200 ''c'' [] v' of
                None \<Rightarrow> False
              | Some (r', v'') \<Rightarrow> r' = Some 201 \<and> map_of (models v'') ''c'' = Some 201))"
    using k1 n1 k2 e2' by (simp add: init_manager_def)
  show ?thesis
    using part1 part2 h1 h2
    by (simp add: failing_once_def vllm_fails_once_def two_loaded_def)
qed

subsection \<open>The effective configuration\<close>

lemma dict_get_spec:
  "dict_get kwargs key (dict_get mc key dflt) = spec_effective (map_of kwargs key) (map_of mc key) dflt"
  by (simp add: dict_get_def spec_effective_def split: option.split)

lemma dict_get_spec_no_registry:
  "dict_get kwargs key dflt = spec_effective (map_of kwargs key) None dflt"
  by (simp add: dict_get_def spec_effective_def split: option.split)

lemma registry_entry_fields:
  "map_of (get_model_config k) ''max_model_len'' \<noteq> None"
  "map_of (get_model_config k) ''tensor_parallel_size'' \<noteq> None"
  "map_of (get_model_config k) ''max_num_seqs'' = None"
  "map_of (get_model_config k) ''cache_max_entry_count'' = None"
  "map_of (get_model_config k) ''gpu_memory_utilization'' = None"
  by (simp_all add: get_model_config_def dict_get_def SUPPORTED_MODELS_def)

lemma vllm_engine_args_no_override:
  assumes "list_all (\<lambda>key. map_of kwargs key = None) named_arguments"
  shows "vllm_engine_args config mc k kwargs =
     Inr ([(''model'', PStr k),
           (''max_model_len'',
              spec_effective None (map_of mc ''max_model_len'') (PInt (max_model_len config))),
           (''max_num_seqs'', PInt (max_num_seqs config)),
           (''tensor_parallel_size'',
              spec_effective None (map_of mc ''tensor_parallel_size'')
                (PInt (tensor_parallel_size config))),
           (''gpu_memory_utilization'', PFloat (gpu_memory_utilization config))] @ kwargs)"
proof -
  have none: "map_of kwargs ''max_model_len'' = None"
    "map_of kwargs ''max_num_seqs'' = None" "map_of kwargs ''tensor_parallel_size'' = None"
    "map_of kwargs ''gpu_memory_utilization'' = None"
    using assms by (simp_all add: named_arguments_def)
  have "key \<notin> fst ` set kwargs" if "key \<in> set named_arguments" for key
    using assms that by (simp add: list_all_iff map_of_eq_None_iff)
  then have f: "filter (\<lambda>k. k \<in> set named_arguments) (map fst kwargs) = []"
    unfolding filter_empty_conv set_map by blast
  have d: "dict_get kwargs ''max_model_len'' x = x" "dict_get kwargs ''max_num_seqs'' x = x"
    "dict_get kwargs ''tensor_parallel_size'' x = x"
    "dict_get kwargs ''gpu_memory_utilization'' x = x" for x
    by (simp_all add: dict_get_def none)
  have e: "dict_get mc key x = spec_effective None (map_of mc key) x" for key x
    by (simp add: dict_get_def spec_effective_def)
  show ?thesis
    unfolding vllm_engine_args_def Let_def f d e by simp
qed

text \<open>An override of one of the named arguments makes the call of \<open>AsyncEngineArgs\<close>
  raise, so that load of the vLLM manager fails.\<close>

lemma vllm_engine_args_override_rejected:
  assumes "map_of kwargs key = Some v" and "key \<in> set named_arguments"
  shows "\<exists>dup. vllm_engine_args config mc k kwargs = Inl (TypeError dup)"
proof -
  from assms(1) have "key \<in> set (map fst kwargs)"
    by (metis in_keys set_map)
  with assms(2) have "filter (\<lambda>k. k \<in> set named_arguments) (map fst kwargs) \<noteq> []"
    unfolding filter_empty_conv by blast
  then obtain dup rest where "filter (\<lambda>k. k \<in> set named_arguments) (map fst kwargs) = dup # rest"
    by (cases "filter (\<lambda>k. k \<in> set named_arguments) (map fst kwargs)") auto
  then show ?thesis
    unfolding vllm_engine_args_def Let_def by simp
qed

lemma vllm_load_model_override_fails:
  assumes "VLLM_AVAILABLE vb" and "map_of (models v) k = None" and "\<not> lock_held v k"
    and "map_of kwargs key = Some x" and "key \<in> set named_arguments"
  shows "vllm_load_model vb config registry now k kwargs v =
     Some (None, v\<lparr>loading_locks := AList.update k False (loading_locks v)\<rparr>)"
proof -
  from vllm_engine_args_override_rejected [OF assms(4,5)]
  obtain dup where "vllm_engine_args config (registry k) k kwargs = Inl (TypeError dup)"
    by blast
  then show ?thesis
    unfolding vllm_load_model_uncached [OF assms(1-3)] by simp
qed


text \<open>
  C2, as the code has it. In the LMDeploy manager the maximal context length and the
  degree of parallelism are the override of the call, else the registry's value, else the
  global default; the registry lookup always supplies both (an unknown identifier gets
  the generic entry), so that the global default of these two is never reached. The
  maximal number of sequences is the override, else the global default, and the registry
  has no such field. The memory fraction \<open>cache_max_entry_count\<close> is the override, else
  the constant \<open>0.8\<close>; the global \<open>gpu_memory_utilization\<close> is not consulted. These
  are the values a load that starts a construction hands to the backend. In the vLLM
  manager, for a call that overrides none of the named arguments, context length and
  parallelism are the registry's value, else the global default, and the number of
  sequences and the memory fraction are the global defaults.
\<close>

theorem load_model_effective_configuration:
  "session_len (engine_config config mc kwargs) =
      spec_effective (map_of kwargs ''max_model_len'') (map_of mc ''max_model_len'')
        (PInt (max_model_len config))
   \<and> tp (engine_config config mc kwargs) =
      spec_effective (map_of kwargs ''tensor_parallel_size'') (map_of mc ''tensor_parallel_size'')
        (PInt (tensor_parallel_size config))
   \<and> max_batch_size (engine_config config mc kwargs) =
      spec_effective (map_of kwargs ''max_num_seqs'') None (PInt (max_num_seqs config))
   \<and> cache_max_entry_count (engine_config config mc kwargs) =
      spec_effective (map_of kwargs ''cache_max_entry_count'') None (PFloat (8 / 10))
   \<and> map_of (get_model_config k) ''max_model_len'' \<noteq> None
   \<and> map_of (get_model_config k) ''tensor_parallel_size'' \<noteq> None
   \<and> map_of (get_model_config k) ''max_num_seqs'' = None
   \<and> (LMDEPLOY_AVAILABLE b \<and> map_of (models s) k = None \<and> \<not> lock_held s k \<longrightarrow>
        (\<exists>r s'. load_model b config now k kwargs s = Some (r, s')
           \<and> constructions s' =
               constructions s @ [(k, engine_config config (get_model_config k) kwargs)]))
   \<and> (list_all (\<lambda>key. map_of kwargs key = None) named_arguments \<longrightarrow>
        vllm_engine_args config mc k kwargs =
          Inr ([(''model'', PStr k),
                (''max_model_len'',
                   spec_effective None (map_of mc ''max_model_len'') (PInt (max_model_len config))),
                (''max_num_seqs'', PInt (max_num_seqs config)),
                (''tensor_parallel_size'',
                   spec_effective None (map_of mc ''tensor_parallel_size'')
                     (PInt (tensor_parallel_size config))),
                (''gpu_memory_utilization'', PFloat (gpu_memory_utilization config))] @ kwargs))"
proof (intro conjI impI)
  show "session_len (engine_config config mc kwargs) =
      spec_effective (map_of kwargs ''max_model_len'') (map_of mc ''max_model_len'')
        (PInt (max_model_len config))"
    by (simp add: engine_config_def dict_get_spec)
  show "tp (engine_config config mc kwargs) =
      spec_effective (map_of kwargs ''tensor_parallel_size'') (map_of mc ''tensor_parallel_size'')
        (PInt (tensor_parallel_size config))"
    by (simp add: engine_config_def dict_get_spec)
  show "max_batch_size (engine_config config mc kwargs) =
      spec_effective (map_of kwargs ''max_num_seqs'') None (PInt (max_num_seqs config))"
    by (simp add: engine_config_def dict_get_spec_no_registry)
  show "cache_max_entry_count (engine_config config mc kwargs) =
      spec_effective (map_of kwargs ''cache_max_entry_count'') None (PFloat (8 / 10))"
    by (simp add: engine_config_def dict_get_spec_no_registry)
  show "map_of (get_model_config k) ''max_model_len'' \<noteq> None"
    by (rule registry_entry_fields)
  show "map_of (get_model_config k) ''tensor_parallel_size'' \<noteq> None"
    by (rule registry_entry_fields)
  show "map_of (get_model_config k) ''max_num_seqs'' = None"
    by (rule registry_entry_fields)
next
  assume "LMDEPLOY_AVAILABLE b \<and> map_of (models s) k = None \<and> \<not> lock_held s k"
  then have a: "LMDEPLOY_AVAILABLE b" and u: "map_of (models s) k = None"
    and f: "\<not> lock_held s k" by simp_all
  from load_model_retry [OF a u f, of config now kwargs]
  show "\<exists>r s'. load_model b config now k kwargs s = Some (r, s')
           \<and> constructions s' =
               constructions s @ [(k, engine_config config (get_model_config k) kwargs)]"
    by (elim exE conjE) (intro exI conjI; assumption)
next
  assume "list_all (\<lambda>key. map_of kwargs key = None) named_arguments"
  then show "vllm_engine_args config mc k kwargs =
          Inr ([(''model'', PStr k),
                (''max_model_len'',
                   spec_effective None (map_of mc ''max_model_len'') (PInt (max_model_len config))),
                (''max_num_seqs'', PInt (max_num_seqs config)),
                (''tensor_parallel_size'',
                   spec_effective None (map_of mc ''tensor_parallel_size'')
                     (PInt (tensor_parallel_size config))),
                (''gpu_memory_utilization'', PFloat (gpu_memory_utilization config))] @ kwargs)"
    by (rule vllm_engine_args_no_override)
qed

theorem load_model_effective_configuration_witness:
  "LMDEPLOY_AVAILABLE always_builds \<and> map_of (models two_loaded) ''c'' = None
   \<and> \<not> lock_held two_loaded ''c''
   \<and> (case load_model always_builds field_defaults 100 ''c''
             [(''max_model_len'', PInt 512)] two_loaded of
        None \<Rightarrow> False
      | Some (r, s') \<Rightarrow>
          constructions s' =
            [(''c'', \<lparr>session_len = PInt 512, max_batch_size = PInt 256, tp = PInt 1,
                     cache_max_entry_count = PFloat (8 / 10)\<rparr>)])
   \<and> list_all (\<lambda>key. map_of [(''seed'', PInt 7)] key = None) named_arguments
   \<and> vllm_engine_args field_defaults [(''max_model_len'', PInt 4096)] ''m'' [(''seed'', PInt 7)] =
        Inr [(''model'', PStr ''m''), (''max_model_len'', PInt 4096),
             (''max_num_seqs'', PInt 256), (''tensor_parallel_size'', PInt 1),
             (''gpu_memory_utilization'', PFloat (9 / 10)), (''seed'', PInt 7)]"
proof -
  have h: "LMDEPLOY_AVAILABLE always_builds \<and> map_of (models two_loaded) ''c'' = None
     \<and> \<not> lock_held two_loaded ''c''"
    by (simp add: always_builds_def two_loaded_def lock_held_def)
  have g: "list_all (\<lambda>key. map_of [(''seed'', PInt 7)] key = None) named_arguments"
    by (simp add: named_arguments_def)
  note inst = load_model_effective_configuration
    [where b = always_builds and s = two_loaded and k = "''c''" and config = field_defaults
       and now = 100 and kwargs = "[(''max_model_len'', PInt 512)]"]
  note lm = inst [THEN conjunct2, THEN conjunct2, THEN conjunct2, THEN conjunct2,
       THEN conjunct2, THEN conjunct2, THEN conjunct2, THEN conjunct1, THEN mp, OF h]
  then obtain r s' where A:
    "load_model always_builds field_defaults 100 ''c'' [(''max_model_len'', PInt 512)] two_loaded
       = Some (r, s')
     \<and> constructions s' =
         constructions two_loaded
           @ [(''c'', engine_config field_defaults (get_model_config ''c'')
                    [(''max_model_len'', PInt 512)])]"
    by (elim exE)
  have ec: "engine_config field_defaults (get_model_config ''c'') [(''max_model_len'', PInt 512)]
      = \<lparr>session_len = PInt 512, max_batch_size = PInt 256, tp = PInt 1,
                     cache_max_entry_count = PFloat (8 / 10)\<rparr>"
    by (simp add: engine_config_def get_model_config_c dict_get_def field_defaults_def)
  have part1: "(case load_model always_builds field_defaults 100 ''c''
             [(''max_model_len'', PInt 512)] two_loaded of
        None \<Rightarrow> False
      | Some (r, s') \<Rightarrow>
          constructions s' =
            [(''c'', \<lparr>session_len = PInt 512, max_batch_size = PInt 256, tp = PInt 1,
                     cache_max_entry_count = PFloat (8 / 10)\<rparr>)])"
    using A by (simp add: ec two_loaded_def)
  note inst2 = load_model_effective_configuration
    [where config = field_defaults and mc = "[(''max_model_len'', PInt 4096)]" and k = "''m''"
       and kwargs = "[(''seed'', PInt 7)]"]
  note vl = inst2 [THEN conjunct2, THEN conjunct2, THEN conjunct2, THEN conjunct2,
       THEN conjunct2, THEN conjunct2, THEN conjunct2, THEN conjunct2, THEN mp, OF g]
  have part2: "vllm_engine_args field_defaults [(''max_model_len'', PInt 4096)] ''m'' [(''seed'', PInt 7)] =
        Inr [(''model'', PStr ''m''), (''max_model_len'', PInt 4096),
             (''max_num_seqs'', PInt 256), (''tensor_parallel_size'', PInt 1),
             (''gpu_memory_utilization'', PFloat (9 / 10)), (''seed'', PInt 7)]"
    using vl by (simp add: spec_effective_def field_defaults_def)
  show ?thesis using h g part1 part2 by simp
qed

text \<open>
  Against C2 as stated, for the memory fraction: with the settings object at its
  defaults and no override, the rule of the specification gives the global default
  \<open>0.9\<close>, under either name of the field, and \<open>load_model\<close> of the LMDeploy manager uses
  \<open>0.8\<close>.
\<close>

theorem memory_fraction_is_not_the_global_default:
  "cache_max_entry_count
     (engine_config field_defaults (get_model_config ''meta-llama/Llama-2-7b-chat-hf'') [])
     = PFloat (8 / 10)
   \<and> spec_effective (map_of [] ''cache_max_entry_count'')
       (map_of (get_model_config ''meta-llama/Llama-2-7b-chat-hf'') ''cache_max_entry_count'')
       (PFloat (gpu_memory_utilization field_defaults)) = PFloat (9 / 10)
   \<and> spec_effective (map_of [] ''gpu_memory_utilization'')
       (map_of (get_model_config ''meta-llama/Llama-2-7b-chat-hf'') ''gpu_memory_utilization'')
       (PFloat (gpu_memory_utilization field_defaults)) = PFloat (9 / 10)
   \<and> PFloat (8 / 10) \<noteq> PFloat (9 / 10)"
  by (simp add: engine_config_def dict_get_def registry_entry_fields spec_effective_def
      field_defaults_def)

subsection \<open>Streamed responses\<close>

lemma relay_eq:
  "relay m stamps i full chunks =
     (map (\<lambda>(j, chunk). new_response m (stamps j) chunk False) (enumerate i chunks),
      full @ concat chunks)"
  by (induction chunks arbitrary: i full) simp_all

lemma relay_chunks:
  "map response (fst (relay m stamps i full chunks)) = chunks"
  "list_all (\<lambda>r. \<not> done' r) (fst (relay m stamps i full chunks))"
  "length (fst (relay m stamps i full chunks)) = length chunks"
  "snd (relay m stamps i full chunks) = full @ concat chunks"
proof -
  have r: "map response (map (\<lambda>(j, chunk). new_response m (stamps j) chunk False) (enumerate i chunks))
      = chunks" for i
    by (induction chunks arbitrary: i) (simp_all add: new_response_def)
  have d: "list_all (\<lambda>r. \<not> done' r)
      (map (\<lambda>(j, chunk). new_response m (stamps j) chunk False) (enumerate i chunks))" for i
    by (induction chunks arbitrary: i) (simp_all add: new_response_def)
  show "map response (fst (relay m stamps i full chunks)) = chunks"
    unfolding relay_eq by (simp only: fst_conv r)
  show "list_all (\<lambda>r. \<not> done' r) (fst (relay m stamps i full chunks))"
    unfolding relay_eq by (simp only: fst_conv d)
  show "length (fst (relay m stamps i full chunks)) = length chunks"
    unfolding relay_eq by simp
  show "snd (relay m stamps i full chunks) = full @ concat chunks"
    unfolding relay_eq by simp
qed

lemma stream_loop_chunks:
  "stream_loop (map QChunk chunks @ [QDone]) = (chunks, StopIteration)"
  "stream_loop (map QChunk chunks @ [QError e]) = (chunks, StopIteration)"
  by (induction chunks) simp_all

lemma stream_generator_eq:
  "stream_generator (Iterator items raised) = (concat (map output_text items), StopIteration)"
  by (cases raised)
    (simp_all add: stream_generator_def sync_stream_def run_stream_def stream_loop_chunks)

lemma generate_stream_exhausted:
  "generate_stream m stamps t0 t1 (Some (chunks, StopIteration)) =
     fst (relay m stamps 0 [] chunks) @
     [(new_response m (stamps (length chunks)) [] True)
        \<lparr>total_duration := Some (py_int ((t1 - t0) * 1000)),
         eval_count := Some (int (length (str_split (concat chunks)))),
         eval_duration := Some (py_int ((t1 - t0) * 1000))\<rparr>]"
  by (simp add: generate_stream_def relay_eq Let_def)

text \<open>
  C9. When the stream the server relays yields its chunks and ends, the server emits one
  object per chunk, each with \<open>done\<close> false and the chunk as its response, and then one
  last object with \<open>done\<close> true whose \<open>eval_count\<close> is the number of words of the
  concatenation of all chunks. The stream of the LMDeploy manager always ends in this way.
\<close>

theorem generate_stream_final_count:
  "length (generate_stream m stamps t0 t1 (Some (chunks, StopIteration))) = Suc (length chunks)
   \<and> map response (butlast (generate_stream m stamps t0 t1 (Some (chunks, StopIteration)))) = chunks
   \<and> list_all (\<lambda>r. \<not> done' r)
        (butlast (generate_stream m stamps t0 t1 (Some (chunks, StopIteration))))
   \<and> done' (last (generate_stream m stamps t0 t1 (Some (chunks, StopIteration))))
   \<and> eval_count (last (generate_stream m stamps t0 t1 (Some (chunks, StopIteration))))
       = Some (int (length (str_split (concat chunks))))
   \<and> snd (stream_generator it) = StopIteration"
proof -
  have "snd (stream_generator it) = StopIteration"
    by (cases it) (simp add: stream_generator_eq)
  then show ?thesis
    unfolding generate_stream_exhausted
    by (simp add: relay_chunks new_response_def)
qed

lemma str_split_Hello: "str_split ''Hello'' = [''Hello'']"
  by (simp add: str_split_def isspace_def)

theorem generate_stream_final_count_witness:
  "concat [''Hel'', ''lo''] = ''Hello''
   \<and> eval_count (last (generate_stream ''m'' (\<lambda>i. ''now'') 0 1 (Some ([''Hel'', ''lo''], StopIteration))))
       = Some (int (length (str_split ''Hello'')))
   \<and> int (length (str_split ''Hello'')) = 1
   \<and> map done' (generate_stream ''m'' (\<lambda>i. ''now'') 0 1 (Some ([''Hel'', ''lo''], StopIteration)))
       = [False, False, True]"
proof -
  note inst = generate_stream_final_count
    [where m = "''m''" and stamps = "\<lambda>i. ''now''" and ?t0.0 = 0 and ?t1.0 = 1
       and chunks = "[''Hel'', ''lo'']"]
  have a: "eval_count (last (generate_stream ''m'' (\<lambda>i. ''now'') 0 1 (Some ([''Hel'', ''lo''], StopIteration))))
       = Some (int (length (str_split ''Hello'')))"
    using inst by simp
  have b: "map done' (generate_stream ''m'' (\<lambda>i. ''now'') 0 1 (Some ([''Hel'', ''lo''], StopIteration)))
       = [False, False, True]"
    by (simp add: generate_stream_def new_response_def Let_def)
  show ?thesis using a b by (simp add: str_split_Hello)
qed

subsection \<open>Failures of the backend as the gateway sees them\<close>

text \<open>
  C7, at a producer that yields one output with the text \<open>Hel\<close> and then raises.
  The handler inside \<open>sync_stream\<close> swallows the exception, the producer thread puts
  \<open>done\<close> on the queue, and the consumer ends normally: the server sends the chunk and
  then the same final object as after a generation that ended well, with \<open>done\<close> true,
  an empty response and the word count of the partial text. No element of what the client
  receives is an error. (Were \<open>error\<close> put on the queue, the consumer would also just
  leave its loop.) The vLLM manager, whose generator has no handler, lets the exception
  reach the server, which then does send an error object as the last element.
\<close>

theorem producer_failure_is_sent_as_success:
  "stream_generator (Iterator [[HasText ''Hel'']] (Some ''engine died'')) = ([''Hel''], StopIteration)
   \<and> generate_stream ''m'' stamps 0 1
        (Some (stream_generator (Iterator [[HasText ''Hel'']] (Some ''engine died''))))
      = [new_response ''m'' (stamps 0) ''Hel'' False,
         (new_response ''m'' (stamps 1) [] True)
           \<lparr>total_duration := Some 1000, eval_count := Some 1, eval_duration := Some 1000\<rparr>]
   \<and> generate_stream ''m'' stamps 0 1
        (Some (stream_generator (Iterator [[HasText ''Hel'']] (Some ''engine died''))))
      = generate_stream ''m'' stamps 0 1
        (Some (stream_generator (Iterator [[HasText ''Hel'']] None)))
   \<and> stream_loop [QChunk ''Hel'', QError ''engine died''] = ([''Hel''], StopIteration)
   \<and> generate_stream ''m'' stamps 0 1
        (Some (vllm_stream_generator
           (Iterator [\<lparr>outputs = [''Hel''], finished = False\<rparr>] (Some ''engine died''))))
      = [new_response ''m'' (stamps 0) ''Hel'' False,
         (new_response ''m'' (stamps 1) ''Error: engine died'' True)\<lparr>total_duration := Some 0\<rparr>]"
  by (simp add: stream_generator_eq generate_stream_def vllm_stream_generator_def Let_def
      str_split_def isspace_def py_int_def)

text \<open>The load endpoint does not look at the flag: it answers a missing backend with
  status 500, as it answers a failed construction.\<close>

lemma load_model_endpoint_unavailable:
  "\<not> LMDEPLOY_AVAILABLE b \<Longrightarrow>
   load_model_endpoint b config now k s = Some (HTTPException 500, s)"
  by (simp add: load_model_endpoint_def load_model_unavailable)

lemma load_model_endpoint_failure:
  assumes "LMDEPLOY_AVAILABLE b" and "map_of (models s) k = None" and "\<not> lock_held s k"
    and "\<forall>pipe. pipeline b (length (constructions s)) k
           (engine_config config (get_model_config k) []) \<noteq> Built pipe"
  shows "\<exists>s'. load_model_endpoint b config now k s = Some (HTTPException 500, s')"
  by (simp add: load_model_endpoint_def load_model_failure [OF assms])

lemma generate_text_load_failed:
  "load_model b config now k kwargs s = Some (None, s') \<Longrightarrow>
   generate_text b config now k prompt gc kwargs s = Some (None, if LMDEPLOY_AVAILABLE b then s' else s)"
  by (simp add: generate_text_def)

text \<open>
  Against C6 as stated, at the manager: \<open>load_model\<close> answers a missing backend and
  a failed construction with the same value \<open>None\<close>, and so does \<open>generate_text\<close>.
\<close>

theorem load_model_same_answer_for_both_failures:
  "\<not> LMDEPLOY_AVAILABLE unavailable \<and> LMDEPLOY_AVAILABLE failing_once
   \<and> map_option fst (load_model unavailable field_defaults 100 ''c'' [] two_loaded) = Some None
   \<and> map_option fst (load_model failing_once field_defaults 100 ''c'' [] two_loaded) = Some None
   \<and> map_option fst (generate_text unavailable field_defaults 100 ''c'' ''hi'' None [] two_loaded)
       = Some None
   \<and> map_option fst (generate_text failing_once field_defaults 100 ''c'' ''hi'' None [] two_loaded)
       = Some None"
proof -
  have a: "\<not> LMDEPLOY_AVAILABLE unavailable" by (simp add: unavailable_def)
  have b: "LMDEPLOY_AVAILABLE failing_once" by (simp add: failing_once_def)
  have u: "map_of (models two_loaded) ''c'' = None" by (simp add: two_loaded_def)
  have f: "\<not> lock_held two_loaded ''c''" by (simp add: two_loaded_def lock_held_def)
  have x: "\<forall>pipe. pipeline failing_once (length (constructions two_loaded)) ''c''
       (engine_config field_defaults (get_model_config ''c'') []) \<noteq> Built pipe"
    by (simp add: failing_once_def two_loaded_def)
  note l1 = load_model_unavailable [OF a, of field_defaults 100 "''c''" "[]" two_loaded]
  note l2 = load_model_failure [OF b u f x, of 100]
  show ?thesis
    using a b by (simp add: l1 l2 generate_text_def)
qed

text \<open>
  C6, as the code has it. \<open>load_model\<close> returns \<open>None\<close> both when the backend is missing
  and when a construction fails. What tells the two apart is the availability flag: the
  manager reports it in \<open>get_system_status\<close>, and \<open>/api/generate\<close> looks at the flag of
  its own module before it calls the manager. It answers a missing backend with status
  503, and a failed load (backend present, not streaming) with status 500.
\<close>

theorem generate_unavailable_503_load_failure_500:
  "(\<not> LMDEPLOY_AVAILABLE b \<longrightarrow> load_model b config now k kwargs s = Some (None, s))
   \<and> (LMDEPLOY_AVAILABLE b \<and> map_of (models s) k = None \<and> \<not> lock_held s k
       \<and> (\<forall>pipe. pipeline b (length (constructions s)) k
                 (engine_config config (get_model_config k) kwargs) \<noteq> Built pipe)
       \<longrightarrow> (\<exists>s'. load_model b config now k kwargs s = Some (None, s')))
   \<and> lmdeploy_available (get_system_status b s) = LMDEPLOY_AVAILABLE b
   \<and> (\<not> server_available \<longrightarrow>
        generate server_available b config stamps t0 now t1 request s
          = Some (HTTPException 503, s))
   \<and> (server_available \<and> LMDEPLOY_AVAILABLE b \<and> \<not> req_stream request
       \<and> map_of (models s) (req_model request) = None \<and> \<not> lock_held s (req_model request)
       \<and> (\<forall>pipe. pipeline b (length (constructions s)) (req_model request)
                 (engine_config config (get_model_config (req_model request)) []) \<noteq> Built pipe)
       \<longrightarrow> (\<exists>s'. generate server_available b config stamps t0 now t1 request s
                  = Some (HTTPException 500, s')))"
proof (intro conjI impI)
  assume "\<not> LMDEPLOY_AVAILABLE b"
  then show "load_model b config now k kwargs s = Some (None, s)"
    by (rule load_model_unavailable)
next
  assume h: "LMDEPLOY_AVAILABLE b \<and> map_of (models s) k = None \<and> \<not> lock_held s k
       \<and> (\<forall>pipe. pipeline b (length (constructions s)) k
                 (engine_config config (get_model_config k) kwargs) \<noteq> Built pipe)"
  then have "load_model b config now k kwargs s =
     Some (None, s\<lparr>loading_locks := AList.update k False (loading_locks s),
           constructions := constructions s @ [(k, engine_config config (get_model_config k) kwargs)]\<rparr>)"
    by (intro load_model_failure) simp_all
  then show "\<exists>s'. load_model b config now k kwargs s = Some (None, s')" by blast
next
  show "lmdeploy_available (get_system_status b s) = LMDEPLOY_AVAILABLE b"
    by (simp add: get_system_status_def)
next
  assume "\<not> server_available"
  then show "generate server_available b config stamps t0 now t1 request s
          = Some (HTTPException 503, s)"
    by (simp add: generate_def)
next
  assume h: "server_available \<and> LMDEPLOY_AVAILABLE b \<and> \<not> req_stream request
       \<and> map_of (models s) (req_model request) = None \<and> \<not> lock_held s (req_model request)
       \<and> (\<forall>pipe. pipeline b (length (constructions s)) (req_model request)
                 (engine_config config (get_model_config (req_model request)) []) \<noteq> Built pipe)"
  let ?k = "req_model request"
  have l: "load_model b config now ?k [] s =
     Some (None, s\<lparr>loading_locks := AList.update ?k False (loading_locks s),
           constructions := constructions s @ [(?k, engine_config config (get_model_config ?k) [])]\<rparr>)"
    using h by (intro load_model_failure) simp_all
  show "\<exists>s'. generate server_available b config stamps t0 now t1 request s
                  = Some (HTTPException 500, s')"
    using h by (simp add: generate_def Let_def generate_text_load_failed [OF l])
qed

theorem generate_unavailable_503_load_failure_500_witness:
  "\<not> LMDEPLOY_AVAILABLE unavailable
   \<and> load_model unavailable field_defaults 100 ''c'' [] two_loaded = Some (None, two_loaded)
   \<and> lmdeploy_available (get_system_status unavailable two_loaded) = False
   \<and> generate False unavailable field_defaults (\<lambda>i. ''now'') 0 100 1
        \<lparr>req_model = ''c'', req_prompt = ''hi'', req_stream = False, req_options = None\<rparr>
        two_loaded = Some (HTTPException 503, two_loaded)
   \<and> LMDEPLOY_AVAILABLE failing_once \<and> map_of (models two_loaded) ''c'' = None
   \<and> \<not> lock_held two_loaded ''c''
   \<and> pipeline failing_once (length (constructions two_loaded)) ''c''
        (engine_config field_defaults (get_model_config ''c'') []) = Raises ''CUDA out of memory''
   \<and> lmdeploy_available (get_system_status failing_once two_loaded) = True
   \<and> map_option fst (load_model failing_once field_defaults 100 ''c'' [] two_loaded) = Some None
   \<and> map_option fst
        (generate True failing_once field_defaults (\<lambda>i. ''now'') 0 100 1
           \<lparr>req_model = ''c'', req_prompt = ''hi'', req_stream = False, req_options = None\<rparr>
           two_loaded) = Some (HTTPException 500)"
proof -
  have a: "\<not> LMDEPLOY_AVAILABLE unavailable" by (simp add: unavailable_def)
  have h: "LMDEPLOY_AVAILABLE failing_once \<and> map_of (models two_loaded) ''c'' = None
       \<and> \<not> lock_held two_loaded ''c''
       \<and> (\<forall>pipe. pipeline failing_once (length (constructions two_loaded)) ''c''
                 (engine_config field_defaults (get_model_config ''c'') []) \<noteq> Built pipe)"
    by (simp add: failing_once_def two_loaded_def lock_held_def)
  have f: "\<not> False" by simp
  let ?req = "\<lparr>req_model = ''c'', req_prompt = ''hi'', req_stream = False, req_options = None\<rparr>"
  note i1 = generate_unavailable_503_load_failure_500
    [where b = unavailable and config = field_defaults and now = 100 and k = "''c''"
       and kwargs = "[]" and s = two_loaded and server_available = False
       and stamps = "\<lambda>i. ''now''" and ?t0.0 = 0 and ?t1.0 = 1 and request = ?req]
  note i2 = generate_unavailable_503_load_failure_500
    [where b = failing_once and config = field_defaults and now = 100 and k = "''c''"
       and kwargs = "[]" and s = two_loaded and server_available = True
       and stamps = "\<lambda>i. ''now''" and ?t0.0 = 0 and ?t1.0 = 1 and request = ?req]
  note p1 = i1 [THEN conjunct1, THEN mp, OF a]
  note p3 = i1 [THEN conjunct2, THEN conjunct2, THEN conjunct1]
  note p4 = i1 [THEN conjunct2, THEN conjunct2, THEN conjunct2, THEN conjunct1, THEN mp, OF f]
  note q2 = i2 [THEN conjunct2, THEN conjunct1, THEN mp, OF h]
  note q3 = i2 [THEN conjunct2, THEN conjunct2, THEN conjunct1]
  have h5: "True \<and> LMDEPLOY_AVAILABLE failing_once \<and> \<not> req_stream ?req
       \<and> map_of (models two_loaded) (req_model ?req) = None
       \<and> \<not> lock_held two_loaded (req_model ?req)
       \<and> (\<forall>pipe. pipeline failing_once (length (constructions two_loaded)) (req_model ?req)
                 (engine_config field_defaults (get_model_config (req_model ?req)) []) \<noteq> Built pipe)"
    using h by simp
  note q5 = i2 [THEN conjunct2, THEN conjunct2, THEN conjunct2, THEN conjunct2, THEN mp, OF h5]
  from q2 obtain s' where l2: "load_model failing_once field_defaults 100 ''c'' [] two_loaded = Some (None, s')"
    by (elim exE)
  from q5 obtain s'' where g2: "generate True failing_once field_defaults (\<lambda>i. ''now'') 0 100 1 ?req
        two_loaded = Some (HTTPException 500, s'')"
    by (elim exE)
  have avail: "LMDEPLOY_AVAILABLE failing_once" using h by simp
  have r: "pipeline failing_once (length (constructions two_loaded)) ''c''
        (engine_config field_defaults (get_model_config ''c'') []) = Raises ''CUDA out of memory''"
    by (simp add: failing_once_def two_loaded_def)
  show ?thesis
    using a p1 p3 p4 h q3 l2 g2 avail r by simp
qed

subsection \<open>Concurrent loads of one identifier\<close>

lemma lock_held_acquire [simp]: "lock_held (acquire k s) k"
  by (simp add: lock_held_def acquire_def update_conv')

lemma lock_held_release [simp]: "\<not> lock_held (release k s) k"
  by (simp add: lock_held_def release_def update_conv')

lemma lock_held_other_fields [simp]:
  "lock_held (s\<lparr>models := m\<rparr>) k = lock_held s k"
  "lock_held (s\<lparr>model_configs := mc\<rparr>) k = lock_held s k"
  "lock_held (s\<lparr>last_used := lu\<rparr>) k = lock_held s k"
  "lock_held (s\<lparr>constructions := cs\<rparr>) k = lock_held s k"
  by (simp_all add: lock_held_def)


















lemma resume_finished: "resume b config now (Finished r) s = (Finished r, s)"
  by simp








lemma length_tasks_run_task [simp]:
  "length (tasks (run_task b config choice l)) = length (tasks l)"
  by (cases choice) (simp add: run_task_def split: prod.split)

lemma length_tasks_run_schedule [simp]:
  "length (tasks (run_schedule b config schedule l)) = length (tasks l)"
  unfolding run_schedule_def by (induction schedule arbitrary: l) simp_all





















end
